theory Spec2Isabelle
  imports Main "HOL-Library.Word"
begin

section \<open>C strings, arrays and failures\<close>

text \<open>
  The OTA demo is C. Two things end a call without a result: a failed \<^verbatim>\<open>assert\<close>
  (the program aborts; assertions are compiled in, main.c relies on them for its own
  checks) and an access outside an array (undefined behaviour). Both are values of the
  model, so that every function below is total and says where it fails.
\<close>

datatype error = AssertionFailed | OutOfBounds

definition bindE :: "error + 'a \<Rightarrow> ('a \<Rightarrow> error + 'b) \<Rightarrow> error + 'b" where
  "bindE r f = (case r of Inl e \<Rightarrow> Inl e | Inr v \<Rightarrow> f v)"

definition NUL :: char where
  "NUL = CHR 0x00"

text \<open>
  A pointer with its length (\<^verbatim>\<open>thingname, thingnameLength\<close>) is one list: the bytes
  the pointer designates. Where the code tests the pointer against \<^verbatim>\<open>NULL\<close> the
  argument is an option, \<open>None\<close> being the null pointer. A destination
  (\<^verbatim>\<open>buffer, bufferSize\<close>) is the list of its \<^verbatim>\<open>bufferSize\<close> bytes. Lengths are
  lengths of arrays that exist, so sums such as \<^verbatim>\<open>28U + thingnameLength\<close> are taken
  in \<open>nat\<close>: they do not wrap.

  \<open>memcpy buffer off src\<close> is \<^verbatim>\<open>memcpy( buffer + off, src, n )\<close> with \<open>n\<close> the
  length of \<open>src\<close>, for a copy that stays inside \<open>buffer\<close>.
\<close>

definition memcpy :: "'a list \<Rightarrow> nat \<Rightarrow> 'a list \<Rightarrow> 'a list" where
  "memcpy buffer off src = take off buffer @ src @ drop (off + length src) buffer"

text \<open>
  A local array \<^verbatim>\<open>char a[ n ] = { 0 }\<close> that receives \<^verbatim>\<open>memcpy( a, src, len )\<close>:
  the copy is out of bounds when the length of \<open>src\<close> exceeds \<open>n\<close>.
\<close>

definition memcpy_array :: "nat \<Rightarrow> string \<Rightarrow> error + string" where
  "memcpy_array n src =
     (if length src \<le> n then Inr (src @ replicate (n - length src) NUL)
      else Inl OutOfBounds)"

text \<open>
  Reading an array as a string (\<^verbatim>\<open>%s\<close>, \<^verbatim>\<open>strlen\<close>) stops at the first NUL; with no
  NUL in the array the read runs past its end.
\<close>

definition c_string :: "string \<Rightarrow> error + string" where
  "c_string a =
     (if NUL \<in> set a then Inr (takeWhile (\<lambda>c. c \<noteq> NUL) a) else Inl OutOfBounds)"

text \<open>
  \<^verbatim>\<open>snprintf( a, n, ... )\<close> into a zeroed array of \<open>asize\<close> bytes, \<open>out\<close> being the
  formatted text: at most \<open>n - 1\<close> characters are stored, then a NUL.
\<close>

definition snprintf :: "nat \<Rightarrow> nat \<Rightarrow> string \<Rightarrow> string" where
  "snprintf asize n out =
     (let w = take (n - 1) out in w @ replicate (asize - length w) NUL)"

definition strnlen :: "string \<Rightarrow> nat \<Rightarrow> nat" where
  "strnlen s maxlen = length (takeWhile (\<lambda>c. c \<noteq> NUL) (take maxlen s))"

text \<open>
  \<open>strncmp_eq0 s1 s2 n\<close> is \<^verbatim>\<open>strncmp( s1, s2, n ) == 0\<close>: at most \<open>n\<close> characters
  are compared, and the comparison ends at a NUL common to both.
\<close>

definition char_at :: "string \<Rightarrow> char" where
  "char_at s = (case s of [] \<Rightarrow> NUL | c # _ \<Rightarrow> c)"

fun strncmp_eq0 :: "string \<Rightarrow> string \<Rightarrow> nat \<Rightarrow> bool" where
  "strncmp_eq0 s1 s2 0 = True"
| "strncmp_eq0 s1 s2 (Suc n) =
     (if char_at s1 \<noteq> char_at s2 then False
      else if char_at s1 = NUL then True
      else strncmp_eq0 (tl s1) (tl s2) n)"

definition array_at :: "'a list \<Rightarrow> nat \<Rightarrow> error + 'a" where
  "array_at a i = (if i < length a then Inr (a ! i) else Inl OutOfBounds)"


section \<open>core\_jobs.c: constants and tables\<close>

definition TOPIC_BUFFER_SIZE :: nat where
  "TOPIC_BUFFER_SIZE = 256"

definition MAX_THING_NAME_LENGTH :: nat where
  "MAX_THING_NAME_LENGTH = 128"

definition START_JOB_MSG_LENGTH :: nat where
  "START_JOB_MSG_LENGTH = 147"

definition UPDATE_JOB_MSG_LENGTH :: nat where
  "UPDATE_JOB_MSG_LENGTH = 48"

definition UPDATE_JOB_STATUS_MAX_LENGTH :: nat where
  "UPDATE_JOB_STATUS_MAX_LENGTH = 8"

text \<open>
  Modelled from the spec: \<^verbatim>\<open>MAX_JOB_ID_LENGTH\<close>, which comes to core\_jobs.c from
  core\_jobs.h, a header that is not among the sources. The data model bounds a job id by
  64 bytes, and ota\_demo.c defines the macro as \<^verbatim>\<open>64U\<close>.
\<close>

definition MAX_JOB_ID_LENGTH :: nat where
  "MAX_JOB_ID_LENGTH = 64"

definition jobStatusString :: "string list" where
  "jobStatusString = [''QUEUED'', ''IN_PROGRESS'', ''FAILED'', ''SUCCEEDED'', ''REJECTED'']"

definition jobStatusStringLengths :: "nat list" where
  "jobStatusStringLengths =
     [length ''QUEUED'', length ''IN_PROGRESS'', length ''FAILED'', length ''SUCCEEDED'',
      length ''REJECTED'']"

text \<open>
  The source declares the second table of the update statuses with the element type of
  the first (\<^verbatim>\<open>const char *\<close>); its elements are the two lengths, and are used as such.
\<close>

definition jobUpdateStatusString :: "string list" where
  "jobUpdateStatusString = [''accepted'', ''rejected'']"

definition jobUpdateStatusStringLengths :: "nat list" where
  "jobUpdateStatusStringLengths = [length ''accepted'', length ''rejected'']"

text \<open>
  Modelled from the spec: the enumerations \<^verbatim>\<open>JobStatus_t\<close> and
  \<^verbatim>\<open>JobUpdateStatus_t\<close> of core\_jobs.h, which is not among the sources. The statuses
  are Queued, InProgress, Failed, Succeeded and Rejected, the results of an update are
  accepted and rejected, both in the order of the tables above (the unit test sends
  \<^verbatim>\<open>Succeeded\<close> and expects \<^verbatim>\<open>SUCCEEDED\<close>). The functions receive the enumerator's
  value and index the tables with it, so they take a \<open>nat\<close>.
\<close>

datatype JobStatus_t = Queued | InProgress | Failed | Succeeded | Rejected

fun JobStatus_value :: "JobStatus_t \<Rightarrow> nat" where
  "JobStatus_value Queued = 0"
| "JobStatus_value InProgress = 1"
| "JobStatus_value Failed = 2"
| "JobStatus_value Succeeded = 3"
| "JobStatus_value Rejected = 4"

datatype JobUpdateStatus_t = JobUpdateStatus_Accepted | JobUpdateStatus_Rejected

fun JobUpdateStatus_value :: "JobUpdateStatus_t \<Rightarrow> nat" where
  "JobUpdateStatus_value JobUpdateStatus_Accepted = 0"
| "JobUpdateStatus_value JobUpdateStatus_Rejected = 1"


section \<open>core\_jobs.c: the builders\<close>

text \<open>Each builder returns the length written and the destination after the call.\<close>

definition getStartNextPendingJobExecutionTopic :: "string option \<Rightarrow> string \<Rightarrow> nat \<times> string" where
  "getStartNextPendingJobExecutionTopic thingname buffer =
     (case thingname of
        None \<Rightarrow> (0, buffer)
      | Some tn \<Rightarrow>
          if length tn > 0 \<and> length buffer \<ge> 28 + length tn then
            let topicLength = length ''$aws/things/'';
                b1 = memcpy buffer 0 ''$aws/things/'';
                b2 = memcpy b1 topicLength tn;
                topicLength = topicLength + length tn;
                b3 = memcpy b2 topicLength ''/jobs/start-next'';
                topicLength = topicLength + length ''/jobs/start-next''
            in (topicLength, b3)
          else (0, buffer))"

definition getStartNextPendingJobExecutionMsg :: "string option \<Rightarrow> string \<Rightarrow> nat \<times> string" where
  \<open>getStartNextPendingJobExecutionMsg clientToken buffer =
     (case clientToken of
        None \<Rightarrow> (0, buffer)
      | Some tok \<Rightarrow>
          if length tok > 0 \<and> length buffer \<ge> 18 + length tok then
            let messageLength = length ''{"clientToken":"'';
                b1 = memcpy buffer 0 ''{"clientToken":"'';
                b2 = memcpy b1 messageLength tok;
                messageLength = messageLength + length tok;
                b3 = memcpy b2 messageLength ''"}'';
                messageLength = messageLength + length ''"}''
            in (messageLength, b3)
          else (0, buffer))\<close>

definition getUpdateJobExecutionTopic ::
  "string option \<Rightarrow> string option \<Rightarrow> string \<Rightarrow> nat \<times> string" where
  "getUpdateJobExecutionTopic thingname jobId buffer =
     (case thingname of
        None \<Rightarrow> (0, buffer)
      | Some tn \<Rightarrow>
          (case jobId of
             None \<Rightarrow> (0, buffer)
           | Some jid \<Rightarrow>
               if length tn > 0 \<and> length jid > 0
                  \<and> length buffer \<ge> 25 + length tn + length jid then
                 let topicLength = length ''$aws/things/'';
                     b1 = memcpy buffer 0 ''$aws/things/'';
                     b2 = memcpy b1 topicLength tn;
                     topicLength = topicLength + length tn;
                     b3 = memcpy b2 topicLength ''/jobs/'';
                     topicLength = topicLength + length ''/jobs/'';
                     b4 = memcpy b3 topicLength jid;
                     topicLength = topicLength + length jid;
                     b5 = memcpy b4 topicLength ''/update'';
                     topicLength = topicLength + length ''/update''
                 in (topicLength, b5)
               else (0, buffer)))"

text \<open>
  The capacity test of the update message reads \<^verbatim>\<open>jobStatusStringLengths[ status ]\<close>
  after the tests of the version (the operands of \<^verbatim>\<open>&&\<close> are evaluated in order), with no
  test of \<open>status\<close> before it.
\<close>

definition getUpdateJobExecutionMsg ::
  "nat \<Rightarrow> string option \<Rightarrow> string \<Rightarrow> error + nat \<times> string" where
  \<open>getUpdateJobExecutionMsg status expectedVersion buffer =
     (case expectedVersion of
        None \<Rightarrow> Inr (0, buffer)
      | Some v \<Rightarrow>
          if length v > 0 then
            bindE (array_at jobStatusStringLengths status) (\<lambda>statusLength.
              if length buffer \<ge> 34 + length v + statusLength then
                bindE (array_at jobStatusString status) (\<lambda>statusString.
                  let messageLength = length ''{"status":"'';
                      b1 = memcpy buffer 0 ''{"status":"'';
                      b2 = memcpy b1 messageLength (take statusLength statusString);
                      messageLength = messageLength + statusLength;
                      b3 = memcpy b2 messageLength ''","expectedVersion":"'';
                      messageLength = messageLength + length ''","expectedVersion":"'';
                      b4 = memcpy b3 messageLength v;
                      messageLength = messageLength + length v;
                      b5 = memcpy b4 messageLength ''"}'';
                      messageLength = messageLength + length ''"}''
                  in Inr (messageLength, b5))
              else Inr (0, buffer))
          else Inr (0, buffer))\<close>

text \<open>
  The message bodies and topics as the specification writes them, to compare the
  builders with. The specification writes the first segment of a topic as
  \<^verbatim>\<open>$protocol\<close>; the code spells it \<^verbatim>\<open>$aws\<close>.
\<close>

fun STATUS_STRING :: "JobStatus_t \<Rightarrow> string" where
  "STATUS_STRING Queued = ''QUEUED''"
| "STATUS_STRING InProgress = ''IN_PROGRESS''"
| "STATUS_STRING Failed = ''FAILED''"
| "STATUS_STRING Succeeded = ''SUCCEEDED''"
| "STATUS_STRING Rejected = ''REJECTED''"

definition spec_updateMessage :: "JobStatus_t \<Rightarrow> string \<Rightarrow> string" where
  \<open>spec_updateMessage status expectedVersion =
     ''{"status":"'' @ STATUS_STRING status @ ''","expectedVersion":"'' @ expectedVersion @ ''"}''\<close>

definition spec_startNextTopic :: "string \<Rightarrow> string" where
  "spec_startNextTopic deviceId = ''$aws/things/'' @ deviceId @ ''/jobs/start-next''"

definition spec_startNextMessage :: "string \<Rightarrow> string" where
  \<open>spec_startNextMessage clientToken = ''{"clientToken":"'' @ clientToken @ ''"}''\<close>

definition spec_updateTopic :: "string \<Rightarrow> string \<Rightarrow> string" where
  "spec_updateTopic deviceId jobId = ''$aws/things/'' @ deviceId @ ''/jobs/'' @ jobId @ ''/update''"


section \<open>mqtt\_wrapper.c: the device identity\<close>

text \<open>
  \<^verbatim>\<open>strncpy( dst, src, n )\<close> with \<open>n\<close> within \<open>dst\<close>: the characters of \<open>src\<close>
  before its first NUL, at most \<open>n\<close> of them, then NULs up to \<open>n\<close> bytes in all.
\<close>

definition strncpy :: "string \<Rightarrow> string \<Rightarrow> nat \<Rightarrow> string" where
  "strncpy dst src n =
     (let s = take n (takeWhile (\<lambda>c. c \<noteq> NUL) src)
      in s @ replicate (n - length s) NUL @ drop n dst)"

definition MAX_THING_NAME_SIZE :: nat where
  "MAX_THING_NAME_SIZE = 128"

text \<open>
  \<^verbatim>\<open>static char globalThingName[ MAX_THING_NAME_SIZE + 1 ]\<close> is the array itself, all
  zero when the program starts; \<open>app_main\<close> sets it once.
\<close>

definition globalThingName_init :: string where
  "globalThingName_init = replicate (MAX_THING_NAME_SIZE + 1) NUL"

definition mqttWrapper_setThingName :: "string \<Rightarrow> string \<Rightarrow> string" where
  "mqttWrapper_setThingName globalThingName thingName =
     strncpy globalThingName thingName MAX_THING_NAME_SIZE"

text \<open>
  \<open>mqttWrapper_getThingName\<close> asserts that a name is stored, copies it with its
  terminator into the caller's array (of \<open>asize\<close> zeroed bytes here) and checks nothing
  else. core\_jobs.c passes a second argument, a length it never reads afterwards.
\<close>

definition mqttWrapper_getThingName :: "string \<Rightarrow> nat \<Rightarrow> error + string" where
  "mqttWrapper_getThingName globalThingName asize =
     (if char_at globalThingName = NUL then Inl AssertionFailed
      else bindE (c_string globalThingName) (\<lambda>name.
        if length name + 1 \<le> asize
        then Inr (name @ replicate (asize - length name) NUL)
        else Inl OutOfBounds))"

text \<open>The name the array holds after \<open>mqttWrapper_setThingName\<close> of \<open>d\<close>.\<close>

definition stored_name :: "string \<Rightarrow> string" where
  "stored_name d = take MAX_THING_NAME_SIZE (takeWhile (\<lambda>c. c \<noteq> NUL) d)"


section \<open>core\_jobs.c: the matchers\<close>

definition isThingnameTopicMatch :: "string \<Rightarrow> string option \<Rightarrow> string \<Rightarrow> error + bool" where
  "isThingnameTopicMatch globalThingName topic topicSuffix =
     (case topic of
        None \<Rightarrow> Inr False
      | Some t \<Rightarrow>
          if length t = 0 then Inr False
          else
            bindE (mqttWrapper_getThingName globalThingName (MAX_THING_NAME_LENGTH + 1))
              (\<lambda>thingName.
            bindE (memcpy_array (MAX_JOB_ID_LENGTH + 1) topicSuffix) (\<lambda>suffixTerminated.
            bindE (c_string thingName) (\<lambda>s1.
            bindE (c_string suffixTerminated) (\<lambda>s2.
              let expectedTopicBuffer =
                    snprintf (TOPIC_BUFFER_SIZE + 1) TOPIC_BUFFER_SIZE
                      (''$aws/things/'' @ s1 @ s2)
              in Inr (strnlen expectedTopicBuffer TOPIC_BUFFER_SIZE = length t
                      \<and> strncmp_eq0 expectedTopicBuffer t (length t)))))))"

definition coreJobs_isStartNextAccepted :: "string \<Rightarrow> string option \<Rightarrow> error + bool" where
  "coreJobs_isStartNextAccepted globalThingName topic =
     isThingnameTopicMatch globalThingName topic ''/jobs/start-next/accepted''"

text \<open>
  \<open>coreJobs_isJobUpdateStatus\<close> fills its two local arrays before anything is tested;
  the job id is read through its pointer, so it is a plain list here.
\<close>

definition coreJobs_isJobUpdateStatus ::
  "string \<Rightarrow> string option \<Rightarrow> string \<Rightarrow> nat \<Rightarrow> error + bool" where
  "coreJobs_isJobUpdateStatus globalThingName topic jobId expectedStatus =
     bindE (memcpy_array (MAX_JOB_ID_LENGTH + 1) jobId) (\<lambda>jobIdTerminated.
     bindE (array_at jobUpdateStatusString expectedStatus) (\<lambda>statusString.
     bindE (array_at jobUpdateStatusStringLengths expectedStatus) (\<lambda>statusLength.
     bindE (memcpy_array (UPDATE_JOB_STATUS_MAX_LENGTH + 1) (take statusLength statusString))
       (\<lambda>updateStatusString.
     bindE (c_string jobIdTerminated) (\<lambda>j.
     bindE (c_string updateStatusString) (\<lambda>u.
       let n = TOPIC_BUFFER_SIZE - MAX_THING_NAME_LENGTH - 4;
           suffixBuffer = snprintf n n (''/jobs/'' @ j @ ''/update/'' @ u)
       in isThingnameTopicMatch globalThingName topic
            (take (strnlen suffixBuffer n) suffixBuffer)))))))"

text \<open>The topics of the grammar, to compare the matchers with.\<close>

definition spec_startNextAcceptedTopic :: "string \<Rightarrow> string" where
  "spec_startNextAcceptedTopic deviceId =
     ''$aws/things/'' @ deviceId @ ''/jobs/start-next/accepted''"

fun UPDATE_STATUS_STRING :: "JobUpdateStatus_t \<Rightarrow> string" where
  "UPDATE_STATUS_STRING JobUpdateStatus_Accepted = ''accepted''"
| "UPDATE_STATUS_STRING JobUpdateStatus_Rejected = ''rejected''"

text \<open>
  The suffix that \<open>coreJobs_isJobUpdateStatus\<close> formats from a job id that fits its array:
  the id ends at its first NUL.
\<close>

definition job_suffix :: "string \<Rightarrow> JobUpdateStatus_t \<Rightarrow> string" where
  "job_suffix jobId st =
     ''/jobs/'' @ takeWhile (\<lambda>c. c \<noteq> NUL) jobId @ ''/update/'' @ UPDATE_STATUS_STRING st"

definition spec_updateStatusTopic :: "string \<Rightarrow> string \<Rightarrow> JobUpdateStatus_t \<Rightarrow> string" where
  "spec_updateStatusTopic deviceId jobId status =
     ''$aws/things/'' @ deviceId @ ''/jobs/'' @ jobId @ ''/update/'' @ UPDATE_STATUS_STRING status"


section \<open>ota\_demo.c: the download session\<close>

type_synonym u8 = "8 word"
type_synonym u32 = "32 word"

definition CONFIG_BLOCK_SIZE :: nat where
  "CONFIG_BLOCK_SIZE = 256"

definition CONFIG_MAX_FILE_SIZE :: nat where
  "CONFIG_MAX_FILE_SIZE = 65536"

definition NUM_OF_BLOCKS_REQUESTED :: nat where
  "NUM_OF_BLOCKS_REQUESTED = 1"

text \<open>
  Modelled from the spec: the file transfer descriptor \<^verbatim>\<open>AfrOtaJobDocumentFields_t\<close>,
  declared by the job parser in a header that is not among the sources. The demo reads a
  file id (a small integer), the total size in bytes and the image reference; the two
  numbers are taken as 32-bit unsigned, as the counters of the demo are, and the
  assignment to the 8-bit \<^verbatim>\<open>currentFileId\<close> converts.
\<close>

record AfrOtaJobDocumentFields_t =
  fileSize :: u32
  fileId :: u32
  imageRef :: string

text \<open>The globals of ota\_demo.c.\<close>

record ota_demo =
  numOfBlocksRemaining :: u32
  currentBlockOffset :: u32
  currentFileId :: u8
  totalBytesReceived :: u32
  downloadedData :: "u8 list"
  globalJobId :: string

definition ota_demo_init :: ota_demo where
  "ota_demo_init =
     \<lparr>numOfBlocksRemaining = 0, currentBlockOffset = 0, currentFileId = 0,
      totalBytesReceived = 0, downloadedData = replicate CONFIG_MAX_FILE_SIZE 0,
      globalJobId = replicate MAX_JOB_ID_LENGTH NUL\<rparr>"

text \<open>
  What the demo asks of its collaborators, in the order of the calls:
  \<^verbatim>\<open>ucMqttFileDownloaderInit( imageRef, thingName, DATA_TYPE_CBOR )\<close>,
  \<^verbatim>\<open>ucRequestDataBlock( fileId, blockSize, offset, numberOfBlocks )\<close> and
  \<^verbatim>\<open>jobs_reportJobStatusComplete()\<close>. The \<^verbatim>\<open>printf\<close> calls are left out.
\<close>

datatype event =
    MqttFileDownloaderInit string string
  | RequestDataBlock u8 nat u32 nat
  | ReportJobStatusComplete

text \<open>
  \<open>thingName\<close> is what \<^verbatim>\<open>getThingName\<close> puts into the local array; the demo only
  passes it on.
\<close>

definition applicationSuppliedFunction_processAfrOtaDocument ::
  "string \<Rightarrow> AfrOtaJobDocumentFields_t \<Rightarrow> ota_demo \<Rightarrow> ota_demo \<times> event list" where
  "applicationSuppliedFunction_processAfrOtaDocument thingName params s =
     (let s = s\<lparr>numOfBlocksRemaining := fileSize params div of_nat CONFIG_BLOCK_SIZE\<rparr>;
          s = s\<lparr>numOfBlocksRemaining := numOfBlocksRemaining s
                 + (if fileSize params mod of_nat CONFIG_BLOCK_SIZE > 0 then 1 else 0)\<rparr>;
          s = s\<lparr>currentFileId := ucast (fileId params)\<rparr>;
          s = s\<lparr>currentBlockOffset := 0\<rparr>;
          s = s\<lparr>totalBytesReceived := 0\<rparr>
      in (s, [MqttFileDownloaderInit (imageRef params) thingName,
              RequestDataBlock (currentFileId s) CONFIG_BLOCK_SIZE (currentBlockOffset s)
                NUM_OF_BLOCKS_REQUESTED]))"

definition otaDemo_finishDownload :: "event list" where
  "otaDemo_finishDownload = [ReportJobStatusComplete]"

text \<open>
  The data block is its payload, \<^verbatim>\<open>payloadLength\<close> being the payload's length. The
  asserted sum is taken without wrap-around: the byte counter is below 65536 whenever a
  block has been accepted, and a payload is an array in the same address space as the
  65536 bytes of \<^verbatim>\<open>downloadedData\<close>. A failed assertion aborts the program: nothing is
  copied, requested or reported.
\<close>

definition otaDemo_handleMqttStreamsBlockArrived ::
  "u8 list \<Rightarrow> ota_demo \<Rightarrow> error + ota_demo \<times> event list" where
  "otaDemo_handleMqttStreamsBlockArrived payload s =
     (if unat (totalBytesReceived s) + length payload < CONFIG_MAX_FILE_SIZE then
        let s = s\<lparr>downloadedData :=
                    memcpy (downloadedData s) (unat (totalBytesReceived s)) payload\<rparr>;
            s = s\<lparr>totalBytesReceived := totalBytesReceived s + of_nat (length payload)\<rparr>;
            s = s\<lparr>numOfBlocksRemaining := numOfBlocksRemaining s - 1\<rparr>
        in if numOfBlocksRemaining s = 0 then Inr (s, otaDemo_finishDownload)
           else
             let s = s\<lparr>currentBlockOffset := currentBlockOffset s + 1\<rparr>
             in Inr (s, [RequestDataBlock (currentFileId s) CONFIG_BLOCK_SIZE
                           (currentBlockOffset s) NUM_OF_BLOCKS_REQUESTED])
      else Inl AssertionFailed)"

text \<open>
  A run of the session: the streams library calls the handler once for each block that
  arrives, in order; the requests and reports of the calls are collected in order. A
  download is the initialisation followed by such a run.
\<close>

fun blocksArrived :: "u8 list list \<Rightarrow> ota_demo \<Rightarrow> error + ota_demo \<times> event list" where
  "blocksArrived [] s = Inr (s, [])"
| "blocksArrived (p # ps) s =
     (case otaDemo_handleMqttStreamsBlockArrived p s of
        Inl e \<Rightarrow> Inl e
      | Inr (s1, out1) \<Rightarrow>
          (case blocksArrived ps s1 of
             Inl e \<Rightarrow> Inl e
           | Inr (s2, out2) \<Rightarrow> Inr (s2, out1 @ out2)))"

definition download ::
  "string \<Rightarrow> AfrOtaJobDocumentFields_t \<Rightarrow> u8 list list \<Rightarrow> ota_demo
     \<Rightarrow> error + ota_demo \<times> event list" where
  "download thingName params blocks s =
     (case applicationSuppliedFunction_processAfrOtaDocument thingName params s of
        (s0, out0) \<Rightarrow>
          (case blocksArrived blocks s0 of
             Inl e \<Rightarrow> Inl e
           | Inr (s1, out1) \<Rightarrow> Inr (s1, out0 @ out1)))"

definition requests :: "event list \<Rightarrow> event list" where
  "requests out = filter (\<lambda>e. case e of RequestDataBlock _ _ _ _ \<Rightarrow> True | _ \<Rightarrow> False) out"


text \<open>
  To state what a run does: the number of blocks of the specification,
  \<open>ceil(totalSize / blockSize)\<close>; the globals after a run of accepted blocks none of
  which is the last, and after a run that ends with the last block (which requests
  nothing more, so the offset stays at the last block's); the request for the block \<open>k\<close>
  offsets further.
\<close>

definition spec_blockCount :: "nat \<Rightarrow> nat \<Rightarrow> nat" where
  "spec_blockCount totalSize blockSize = (totalSize + blockSize - 1) div blockSize"

definition after_blocks :: "u8 list list \<Rightarrow> ota_demo \<Rightarrow> ota_demo" where
  "after_blocks ps s =
     s\<lparr>numOfBlocksRemaining := numOfBlocksRemaining s - of_nat (length ps),
       currentBlockOffset := currentBlockOffset s + of_nat (length ps),
       totalBytesReceived := totalBytesReceived s + of_nat (length (concat ps)),
       downloadedData := memcpy (downloadedData s) (unat (totalBytesReceived s)) (concat ps)\<rparr>"

definition completed :: "u8 list list \<Rightarrow> ota_demo \<Rightarrow> ota_demo" where
  "completed ps s =
     (after_blocks ps s)\<lparr>currentBlockOffset := currentBlockOffset s + of_nat (length ps - 1)\<rparr>"

definition request_at :: "ota_demo \<Rightarrow> nat \<Rightarrow> event" where
  "request_at s k =
     RequestDataBlock (currentFileId s) CONFIG_BLOCK_SIZE (currentBlockOffset s + of_nat k)
       NUM_OF_BLOCKS_REQUESTED"


section \<open>ota\_demo.c: the active job\<close>

text \<open>
  \<open>handleJobDoc\<close> belongs to the job parser, outside the sources. It is a parameter:
  the parser's verdict on the job document, \<open>None\<close> when it returns false and the fields
  it hands to \<open>applicationSuppliedFunction_processAfrOtaDocument\<close> when it returns true.
  \<^verbatim>\<open>strncpy\<close> into the 64 bytes of \<^verbatim>\<open>globalJobId\<close> is out of bounds for a longer id.
\<close>

definition otaDemo_handleJobsStartNextAccepted ::
  "(string \<Rightarrow> string \<Rightarrow> AfrOtaJobDocumentFields_t option) \<Rightarrow> string \<Rightarrow> string \<Rightarrow> string
     \<Rightarrow> ota_demo \<Rightarrow> error + bool \<times> ota_demo \<times> event list" where
  "otaDemo_handleJobsStartNextAccepted handleJobDoc thingName jobId jobDoc s =
     (if char_at (globalJobId s) = NUL then
        if length jobId \<le> length (globalJobId s) then
          let s = s\<lparr>globalJobId := strncpy (globalJobId s) jobId (length jobId)\<rparr>
          in (case handleJobDoc jobId jobDoc of
                None \<Rightarrow> Inr (False, s, [])
              | Some params \<Rightarrow>
                  (case applicationSuppliedFunction_processAfrOtaDocument thingName params s of
                     (s1, out) \<Rightarrow> Inr (True, s1, out)))
        else Inl OutOfBounds
      else Inr (False, s, []))"


section \<open>ota\_demo.c: the router\<close>

text \<open>
  The two dispatchers are library functions; they are parameters that take the topic and
  the message and may change the state \<open>'s\<close> of the program. The third component of the
  result is what the router prints: the unrecognised message, if any.
\<close>

definition otaDemo_handleIncomingMQTTMessage ::
  "(string \<Rightarrow> u8 list \<Rightarrow> 's \<Rightarrow> bool \<times> 's) \<Rightarrow> (string \<Rightarrow> u8 list \<Rightarrow> 's \<Rightarrow> bool \<times> 's)
     \<Rightarrow> string \<Rightarrow> u8 list \<Rightarrow> 's \<Rightarrow> bool \<times> 's \<times> (string \<times> u8 list) list" where
  "otaDemo_handleIncomingMQTTMessage coreJobsMQTTAPI_handleIncomingMQTTMessage
       mqttStreams_handleIncomingMessage topic message s =
     (case coreJobsMQTTAPI_handleIncomingMQTTMessage topic message s of
        (handled, s1) \<Rightarrow>
          (case (if handled then (True, s1)
                 else mqttStreams_handleIncomingMessage topic message s1) of
             (handled, s2) \<Rightarrow>
               (handled, s2, if \<not> handled then [(topic, message)] else [])))"


section \<open>Facts about copies\<close>

lemma length_memcpy:
  "off + length src \<le> length buffer \<Longrightarrow> length (memcpy buffer off src) = length buffer"
  by (simp add: memcpy_def)

lemma memcpy_chain:
  "n = length p \<Longrightarrow> n + length src \<le> length buffer \<Longrightarrow>
   memcpy (p @ drop n buffer) n src = p @ src @ drop (n + length src) buffer"
  by (simp add: memcpy_def add.commute)

lemma write3:
  assumes "length a + length b + length c \<le> length buffer"
  shows "memcpy (memcpy (memcpy buffer 0 a) (length a) b) (length a + length b) c
         = a @ b @ c @ drop (length a + length b + length c) buffer"
proof -
  have 1: "memcpy buffer 0 a = a @ drop (length a) buffer"
    using assms by (simp add: memcpy_def)
  have 2: "memcpy (a @ drop (length a) buffer) (length a) b
           = a @ b @ drop (length a + length b) buffer"
    using assms by (intro memcpy_chain) simp_all
  have 3: "memcpy (a @ b @ drop (length a + length b) buffer) (length a + length b) c
           = a @ b @ c @ drop (length a + length b + length c) buffer"
    using assms memcpy_chain [of "length a + length b" "a @ b" c buffer] by simp
  show ?thesis by (simp only: 1 2 3)
qed

lemma write5:
  assumes "length a + length b + length c + length d + length e \<le> length buffer"
  shows "memcpy (memcpy (memcpy (memcpy (memcpy buffer 0 a) (length a) b) (length a + length b) c)
            (length a + length b + length c) d) (length a + length b + length c + length d) e
         = a @ b @ c @ d @ e
           @ drop (length a + length b + length c + length d + length e) buffer"
proof -
  have 3: "memcpy (memcpy (memcpy buffer 0 a) (length a) b) (length a + length b) c
         = a @ b @ c @ drop (length a + length b + length c) buffer"
    using assms by (simp add: write3)
  have 4: "memcpy (a @ b @ c @ drop (length a + length b + length c) buffer)
             (length a + length b + length c) d
           = a @ b @ c @ d @ drop (length a + length b + length c + length d) buffer"
    using assms memcpy_chain [of "length a + length b + length c" "a @ b @ c" d buffer]
    by simp
  have 5: "memcpy (a @ b @ c @ d @ drop (length a + length b + length c + length d) buffer)
             (length a + length b + length c + length d) e
           = a @ b @ c @ d @ e
             @ drop (length a + length b + length c + length d + length e) buffer"
    using assms
      memcpy_chain [of "length a + length b + length c + length d" "a @ b @ c @ d" e buffer]
    by simp
  show ?thesis by (simp only: 3 4 5)
qed


section \<open>The builders produce the specified text or nothing\<close>

lemma status_tables:
  "array_at jobStatusStringLengths (JobStatus_value st) = Inr (length (STATUS_STRING st))"
  "array_at jobStatusString (JobStatus_value st) = Inr (STATUS_STRING st)"
  by (cases st; simp add: array_at_def jobStatusStringLengths_def jobStatusString_def)+

lemma length_spec_updateMessage:
  "length (spec_updateMessage st v) = 34 + length v + length (STATUS_STRING st)"
  by (simp add: spec_updateMessage_def)

lemma getUpdateJobExecutionMsg_ok:
  assumes "v \<noteq> []" and "34 + length v + length (STATUS_STRING st) \<le> length buffer"
  shows "getUpdateJobExecutionMsg (JobStatus_value st) (Some v) buffer =
     Inr (length (spec_updateMessage st v),
          spec_updateMessage st v @ drop (length (spec_updateMessage st v)) buffer)"
proof -
  have len: \<open>length ''{"status":"'' + length (STATUS_STRING st)
      + length ''","expectedVersion":"'' + length v + length ''"}'' \<le> length buffer\<close>
    using assms(2) by simp
  have c: "34 + length v + length (STATUS_STRING st) \<le> length buffer \<longleftrightarrow> True"
    using assms by simp
  show ?thesis
    using assms(1)
    unfolding getUpdateJobExecutionMsg_def Let_def spec_updateMessage_def status_tables
      bindE_def sum.case c option.case take_all [OF order_refl] write5 [OF len]
    by simp
qed

lemma getUpdateJobExecutionMsg_none:
  assumes "v = [] \<or> length buffer < 34 + length v + length (STATUS_STRING st)"
  shows "getUpdateJobExecutionMsg (JobStatus_value st) (Some v) buffer = Inr (0, buffer)"
  using assms
  by (auto simp add: getUpdateJobExecutionMsg_def bindE_def status_tables)

text \<open>
  C6. For each of the five statuses and every non-empty expected version whose message fits
  the destination, \<open>getUpdateJobExecutionMsg\<close> returns the length of
  \<^verbatim>\<open>{"status":"<STATUS_STRING>","expectedVersion":"<expectedVersion>"}\<close> and leaves exactly
  that text at the start of the destination; with an empty or null version, or a
  destination too small, it returns 0. For \<open>Succeeded\<close> and \<open>1.0.1\<close> in the 48 bytes
  of \<open>coreJobs_updateJobStatus\<close> the destination is
  \<^verbatim>\<open>{"status":"SUCCEEDED","expectedVersion":"1.0.1"}\<close>.
\<close>

theorem getUpdateJobExecutionMsg_body:
  \<open>(v \<noteq> [] \<and> length (spec_updateMessage st v) \<le> length buffer \<longrightarrow>
      getUpdateJobExecutionMsg (JobStatus_value st) (Some v) buffer =
        Inr (length (spec_updateMessage st v),
             spec_updateMessage st v @ drop (length (spec_updateMessage st v)) buffer))
   \<and> (v = [] \<or> length buffer < length (spec_updateMessage st v) \<longrightarrow>
      getUpdateJobExecutionMsg (JobStatus_value st) (Some v) buffer = Inr (0, buffer))
   \<and> getUpdateJobExecutionMsg (JobStatus_value st) None buffer = Inr (0, buffer)
   \<and> getUpdateJobExecutionMsg (JobStatus_value Succeeded) (Some ''1.0.1'')
        (replicate UPDATE_JOB_MSG_LENGTH NUL) =
        Inr (48, ''{"status":"SUCCEEDED","expectedVersion":"1.0.1"}'')\<close>
proof -
  have ex: \<open>getUpdateJobExecutionMsg (JobStatus_value Succeeded) (Some ''1.0.1'')
        (replicate UPDATE_JOB_MSG_LENGTH NUL) =
        Inr (48, ''{"status":"SUCCEEDED","expectedVersion":"1.0.1"}'')\<close>
    using getUpdateJobExecutionMsg_ok [of "''1.0.1''" Succeeded "replicate UPDATE_JOB_MSG_LENGTH NUL"]
    by (simp add: spec_updateMessage_def UPDATE_JOB_MSG_LENGTH_def)
  have none: "getUpdateJobExecutionMsg (JobStatus_value st) None buffer = Inr (0, buffer)"
    by (simp add: getUpdateJobExecutionMsg_def)
  show ?thesis
    using getUpdateJobExecutionMsg_ok [of v st buffer] getUpdateJobExecutionMsg_none [of v buffer st]
      ex none
    by (simp only: length_spec_updateMessage) blast
qed

theorem getUpdateJobExecutionMsg_body_witness:
  \<open>''1.0.1'' \<noteq> [] \<and> length (spec_updateMessage Succeeded ''1.0.1'') \<le> length (replicate 48 NUL)
   \<and> getUpdateJobExecutionMsg (JobStatus_value Succeeded) (Some ''1.0.1'') (replicate 48 NUL) =
        Inr (48, ''{"status":"SUCCEEDED","expectedVersion":"1.0.1"}'')
   \<and> length (replicate 48 NUL) < length (spec_updateMessage InProgress ''1.0.1'')
   \<and> getUpdateJobExecutionMsg (JobStatus_value InProgress) (Some ''1.0.1'') (replicate 48 NUL) =
        Inr (0, replicate 48 NUL)\<close>
  using getUpdateJobExecutionMsg_body [of "''1.0.1''" Succeeded "replicate 48 NUL"]
    getUpdateJobExecutionMsg_body [of "''1.0.1''" InProgress "replicate 48 NUL"]
  by (simp add: spec_updateMessage_def)

lemma getStartNextPendingJobExecutionTopic_ok:
  assumes "tn \<noteq> []" and "28 + length tn \<le> length buffer"
  shows "getStartNextPendingJobExecutionTopic (Some tn) buffer =
     (length (spec_startNextTopic tn),
      spec_startNextTopic tn @ drop (length (spec_startNextTopic tn)) buffer)"
proof -
  have len: "length ''$aws/things/'' + length tn + length ''/jobs/start-next'' \<le> length buffer"
    using assms(2) by simp
  have c: "28 + length tn \<le> length buffer \<longleftrightarrow> True"
    using assms by simp
  show ?thesis
    using assms(1)
    unfolding getStartNextPendingJobExecutionTopic_def Let_def spec_startNextTopic_def c
      option.case write3 [OF len]
    by simp
qed

lemma getStartNextPendingJobExecutionTopic_none:
  assumes "tn = [] \<or> length buffer < 28 + length tn"
  shows "getStartNextPendingJobExecutionTopic (Some tn) buffer = (0, buffer)"
  using assms by (auto simp add: getStartNextPendingJobExecutionTopic_def)

lemma getStartNextPendingJobExecutionMsg_ok:
  assumes "tok \<noteq> []" and "18 + length tok \<le> length buffer"
  shows "getStartNextPendingJobExecutionMsg (Some tok) buffer =
     (length (spec_startNextMessage tok),
      spec_startNextMessage tok @ drop (length (spec_startNextMessage tok)) buffer)"
proof -
  have len: \<open>length ''{"clientToken":"'' + length tok + length ''"}'' \<le> length buffer\<close>
    using assms(2) by simp
  have c: "18 + length tok \<le> length buffer \<longleftrightarrow> True"
    using assms by simp
  show ?thesis
    using assms(1)
    unfolding getStartNextPendingJobExecutionMsg_def Let_def spec_startNextMessage_def c
      option.case write3 [OF len]
    by simp
qed

lemma getStartNextPendingJobExecutionMsg_none:
  assumes "tok = [] \<or> length buffer < 18 + length tok"
  shows "getStartNextPendingJobExecutionMsg (Some tok) buffer = (0, buffer)"
  using assms by (auto simp add: getStartNextPendingJobExecutionMsg_def)

lemma getUpdateJobExecutionTopic_ok:
  assumes "tn \<noteq> []" and "jid \<noteq> []" and "25 + length tn + length jid \<le> length buffer"
  shows "getUpdateJobExecutionTopic (Some tn) (Some jid) buffer =
     (length (spec_updateTopic tn jid),
      spec_updateTopic tn jid @ drop (length (spec_updateTopic tn jid)) buffer)"
proof -
  have len: "length ''$aws/things/'' + length tn + length ''/jobs/'' + length jid
      + length ''/update'' \<le> length buffer"
    using assms(3) by simp
  have c: "25 + length tn + length jid \<le> length buffer \<longleftrightarrow> True"
    using assms by simp
  show ?thesis
    using assms(1,2)
    unfolding getUpdateJobExecutionTopic_def Let_def spec_updateTopic_def c
      option.case write5 [OF len]
    by simp
qed

lemma getUpdateJobExecutionTopic_none:
  assumes "tn = [] \<or> jid = [] \<or> length buffer < 25 + length tn + length jid"
  shows "getUpdateJobExecutionTopic (Some tn) (Some jid) buffer = (0, buffer)"
  using assms by (auto simp add: getUpdateJobExecutionTopic_def)


section \<open>Matching a topic against the device's own\<close>

lemma takeWhile_NUL_pad:
  "NUL \<notin> set s \<Longrightarrow> takeWhile (\<lambda>c. c \<noteq> NUL) (s @ replicate k NUL) = s"
  by (induction s) auto

lemma c_string_pad:
  "NUL \<notin> set s \<Longrightarrow> 0 < k \<Longrightarrow> c_string (s @ replicate k NUL) = Inr s"
  by (auto simp add: c_string_def takeWhile_NUL_pad)

lemma c_string_full:
  "NUL \<notin> set s \<Longrightarrow> c_string s = Inl OutOfBounds"
  by (simp add: c_string_def)

lemma strnlen_pad:
  "NUL \<notin> set s \<Longrightarrow> length s \<le> m \<Longrightarrow> strnlen (s @ replicate k NUL) m = length s"
  by (simp add: strnlen_def takeWhile_NUL_pad min_def)

lemma strncmp_eq0_pad:
  "NUL \<notin> set s \<Longrightarrow> length t = length s \<Longrightarrow>
   strncmp_eq0 (s @ zs) t (length t) \<longleftrightarrow> s = t"
proof (induction s arbitrary: t)
  case Nil
  then show ?case by simp
next
  case (Cons a s)
  then obtain b t' where t: "t = b # t'" by (cases t) auto
  with Cons show ?case by (auto simp add: char_at_def)
qed

lemma NUL_notin_takeWhile: "NUL \<notin> set (takeWhile (\<lambda>c. c \<noteq> NUL) s)"
  by (induction s) auto

lemma stored_name_props:
  "NUL \<notin> set (stored_name d)" "length (stored_name d) \<le> 128"
  using NUL_notin_takeWhile [of d]
  by (auto simp add: stored_name_def MAX_THING_NAME_SIZE_def dest: in_set_takeD)

lemma setThingName_array:
  "mqttWrapper_setThingName globalThingName_init d =
     stored_name d @ replicate (129 - length (stored_name d)) NUL"
proof -
  have l: "length (stored_name d) \<le> 128" by (rule stored_name_props)
  then have e: "129 - length (stored_name d) = Suc (128 - length (stored_name d))" by simp
  have "strncpy (replicate 129 NUL) d 128 =
      stored_name d @ replicate (128 - length (stored_name d)) NUL @ [NUL]"
    by (simp add: strncpy_def stored_name_def MAX_THING_NAME_SIZE_def Let_def)
  then show ?thesis
    unfolding e
    by (simp add: mqttWrapper_setThingName_def globalThingName_init_def MAX_THING_NAME_SIZE_def
        replicate_append_same)
qed

lemma getThingName_stored:
  assumes "stored_name d \<noteq> []"
  shows "mqttWrapper_getThingName (mqttWrapper_setThingName globalThingName_init d) 129 =
     Inr (stored_name d @ replicate (129 - length (stored_name d)) NUL)"
proof -
  have l: "length (stored_name d) \<le> 128" and n: "NUL \<notin> set (stored_name d)"
    by (rule stored_name_props)+
  from assms n have "char_at (stored_name d @ replicate (129 - length (stored_name d)) NUL) \<noteq> NUL"
    by (cases "stored_name d") (auto simp add: char_at_def)
  with l n show ?thesis
    by (simp add: mqttWrapper_getThingName_def setThingName_array bindE_def c_string_pad)
qed

lemma expectedTopic_compare:
  assumes "NUL \<notin> set e" and "length e < TOPIC_BUFFER_SIZE"
  shows "(strnlen (snprintf (TOPIC_BUFFER_SIZE + 1) TOPIC_BUFFER_SIZE e) TOPIC_BUFFER_SIZE = length t
          \<and> strncmp_eq0 (snprintf (TOPIC_BUFFER_SIZE + 1) TOPIC_BUFFER_SIZE e) t (length t))
         = (t = e)"
proof -
  let ?k = "TOPIC_BUFFER_SIZE + 1 - length e"
  have sn: "snprintf (TOPIC_BUFFER_SIZE + 1) TOPIC_BUFFER_SIZE e = e @ replicate ?k NUL"
    using assms(2) by (simp add: snprintf_def Let_def)
  have len: "strnlen (e @ replicate ?k NUL) TOPIC_BUFFER_SIZE = length e"
    using assms by (intro strnlen_pad) simp_all
  show ?thesis
  proof (cases "length t = length e")
    case True
    then show ?thesis
      unfolding sn len using strncmp_eq0_pad [OF assms(1) True, of "replicate ?k NUL"] by auto
  next
    case False
    then show ?thesis unfolding sn len by auto
  qed
qed

lemma isThingnameTopicMatch_eq:
  assumes "stored_name d \<noteq> []" and "NUL \<notin> set sfx" and "length sfx \<le> 64" and "t \<noteq> []"
  shows "isThingnameTopicMatch (mqttWrapper_setThingName globalThingName_init d) (Some t) sfx =
     Inr (t = ''$aws/things/'' @ stored_name d @ sfx)"
proof -
  let ?n = "stored_name d"
  let ?p = "''$aws/things/''"
  have l: "length ?n \<le> 128" and n: "NUL \<notin> set ?n"
    by (rule stored_name_props)+
  have "length ?p = 12" by simp
  then have le: "length (?p @ ?n @ sfx) < TOPIC_BUFFER_SIZE"
    using l assms(3) unfolding length_append TOPIC_BUFFER_SIZE_def by linarith
  have "NUL \<notin> set ?p" by (simp add: NUL_def)
  then have ne: "NUL \<notin> set (?p @ ?n @ sfx)"
    using n assms(2) unfolding set_append by blast
  have g: "mqttWrapper_getThingName (mqttWrapper_setThingName globalThingName_init d)
       (MAX_THING_NAME_LENGTH + 1) = Inr (?n @ replicate (129 - length ?n) NUL)"
    using getThingName_stored [OF assms(1)] by (simp add: MAX_THING_NAME_LENGTH_def)
  have s1: "c_string (?n @ replicate (129 - length ?n) NUL) = Inr ?n"
    using l n by (intro c_string_pad) simp_all
  have s2: "memcpy_array (MAX_JOB_ID_LENGTH + 1) sfx = Inr (sfx @ replicate (65 - length sfx) NUL)"
    using assms(3) by (simp add: memcpy_array_def MAX_JOB_ID_LENGTH_def)
  have s3: "c_string (sfx @ replicate (65 - length sfx) NUL) = Inr sfx"
    using assms(2,3) by (intro c_string_pad) simp_all
  have t: "(length t = 0) = False" using assms(4) by simp
  show ?thesis
    unfolding isThingnameTopicMatch_def option.case t if_False g bindE_def sum.case s1 s2 s3 Let_def
      expectedTopic_compare [OF ne le]
    by (rule refl)
qed

lemma isThingnameTopicMatch_null:
  "isThingnameTopicMatch g None sfx = Inr False"
  "isThingnameTopicMatch g (Some []) sfx = Inr False"
  by (simp_all add: isThingnameTopicMatch_def)

lemma isThingnameTopicMatch_overflow:
  assumes "stored_name d \<noteq> []" and "NUL \<notin> set sfx" and "64 < length sfx" and "t \<noteq> []"
  shows "isThingnameTopicMatch (mqttWrapper_setThingName globalThingName_init d) (Some t) sfx =
     Inl OutOfBounds"
proof -
  let ?n = "stored_name d"
  have g: "mqttWrapper_getThingName (mqttWrapper_setThingName globalThingName_init d)
       (MAX_THING_NAME_LENGTH + 1) = Inr (?n @ replicate (129 - length ?n) NUL)"
    using getThingName_stored [OF assms(1)] by (simp add: MAX_THING_NAME_LENGTH_def)
  have t: "(length t = 0) = False" using assms(4) by simp
  have s1: "c_string (?n @ replicate (129 - length ?n) NUL) = Inr ?n"
    using stored_name_props [of d] by (intro c_string_pad) simp_all
  have s2: "bindE (memcpy_array (MAX_JOB_ID_LENGTH + 1) sfx)
       (\<lambda>a. bindE (c_string (?n @ replicate (129 - length ?n) NUL))
         (\<lambda>s1. bindE (c_string a) (k s1))) = Inl OutOfBounds"
    for k :: "string \<Rightarrow> string \<Rightarrow> error + bool"
  proof (cases "length sfx = 65")
    case True
    then have "memcpy_array (MAX_JOB_ID_LENGTH + 1) sfx = Inr sfx"
      by (simp add: memcpy_array_def MAX_JOB_ID_LENGTH_def)
    then show ?thesis
      using assms(2) by (simp add: bindE_def s1 c_string_full)
  next
    case False
    with assms(3) have "memcpy_array (MAX_JOB_ID_LENGTH + 1) sfx = Inl OutOfBounds"
      by (simp add: memcpy_array_def MAX_JOB_ID_LENGTH_def)
    then show ?thesis by (simp add: bindE_def)
  qed
  show ?thesis
    unfolding isThingnameTopicMatch_def option.case t if_False g
    by (simp only: bindE_def [of "Inr _"] sum.case s2)
qed

lemma takeWhile_pad:
  "takeWhile (\<lambda>c. c \<noteq> NUL) (s @ replicate k NUL) = takeWhile (\<lambda>c. c \<noteq> NUL) s"
  by (induction s) simp_all

lemma c_string_pad_any:
  "0 < k \<Longrightarrow> c_string (s @ replicate k NUL) = Inr (takeWhile (\<lambda>c. c \<noteq> NUL) s)"
  by (auto simp add: c_string_def takeWhile_pad)

lemma suffix_roundtrip:
  assumes "NUL \<notin> set out" and "length out < n"
  shows "take (strnlen (snprintf n n out) n) (snprintf n n out) = out"
proof -
  have sn: "snprintf n n out = out @ replicate (n - length out) NUL"
    using assms(2) by (simp add: snprintf_def Let_def)
  have "strnlen (out @ replicate (n - length out) NUL) n = length out"
    using assms by (intro strnlen_pad) simp_all
  then show ?thesis by (simp add: sn)
qed

lemma update_status_tables:
  "array_at jobUpdateStatusString (JobUpdateStatus_value st) = Inr (UPDATE_STATUS_STRING st)"
  "array_at jobUpdateStatusStringLengths (JobUpdateStatus_value st) =
     Inr (length (UPDATE_STATUS_STRING st))"
  by (cases st; simp add: array_at_def jobUpdateStatusString_def jobUpdateStatusStringLengths_def)+

lemma update_status_word:
  "memcpy_array (UPDATE_JOB_STATUS_MAX_LENGTH + 1) (UPDATE_STATUS_STRING st) =
     Inr (UPDATE_STATUS_STRING st @ [NUL])"
  "c_string (UPDATE_STATUS_STRING st @ [NUL]) = Inr (UPDATE_STATUS_STRING st)"
  "NUL \<notin> set (UPDATE_STATUS_STRING st)"
  "length (UPDATE_STATUS_STRING st) = 8"
  by (cases st; simp add: memcpy_array_def UPDATE_JOB_STATUS_MAX_LENGTH_def c_string_def NUL_def)+

lemma job_suffix_props:
  "NUL \<notin> set (job_suffix jobId st)"
  "length (job_suffix jobId st) = 22 + length (takeWhile (\<lambda>c. c \<noteq> NUL) jobId)"
proof -
  have "NUL \<notin> set ''/jobs/''" "NUL \<notin> set ''/update/''" by (simp_all add: NUL_def)
  then show "NUL \<notin> set (job_suffix jobId st)"
    using NUL_notin_takeWhile [of jobId] update_status_word(3) [of st]
    unfolding job_suffix_def set_append by blast
  show "length (job_suffix jobId st) = 22 + length (takeWhile (\<lambda>c. c \<noteq> NUL) jobId)"
    by (simp add: job_suffix_def update_status_word(4))
qed

lemma coreJobs_isJobUpdateStatus_suffix:
  assumes "length jobId \<le> 64"
  shows "coreJobs_isJobUpdateStatus g topic jobId (JobUpdateStatus_value st) =
     isThingnameTopicMatch g topic (job_suffix jobId st)"
proof -
  have j1: "memcpy_array (MAX_JOB_ID_LENGTH + 1) jobId = Inr (jobId @ replicate (65 - length jobId) NUL)"
    using assms by (simp add: memcpy_array_def MAX_JOB_ID_LENGTH_def)
  have j2: "c_string (jobId @ replicate (65 - length jobId) NUL) = Inr (takeWhile (\<lambda>c. c \<noteq> NUL) jobId)"
    using assms by (intro c_string_pad_any) simp
  have "length (takeWhile (\<lambda>c. c \<noteq> NUL) jobId) \<le> length jobId"
    by (rule length_takeWhile_le)
  then have l: "length (job_suffix jobId st) < TOPIC_BUFFER_SIZE - MAX_THING_NAME_LENGTH - 4"
    using assms unfolding job_suffix_props
    by (simp add: TOPIC_BUFFER_SIZE_def MAX_THING_NAME_LENGTH_def)
  show ?thesis
    unfolding coreJobs_isJobUpdateStatus_def j1 update_status_tables bindE_def sum.case
      take_all [OF order_refl] update_status_word(1,2) j2 Let_def
      job_suffix_def [symmetric] suffix_roundtrip [OF job_suffix_props(1) l]
    by (rule refl)
qed

section \<open>The start-next topic and its acceptance\<close>

lemma accepted_suffix:
  "NUL \<notin> set ''/jobs/start-next/accepted''" "length ''/jobs/start-next/accepted'' \<le> 64"
  by (simp_all add: NUL_def)

lemma coreJobs_isStartNextAccepted_eq:
  assumes "stored_name name \<noteq> []" and "t \<noteq> []"
  shows "coreJobs_isStartNextAccepted (mqttWrapper_setThingName globalThingName_init name) (Some t)
     = Inr (t = spec_startNextAcceptedTopic (stored_name name))"
  unfolding coreJobs_isStartNextAccepted_def spec_startNextAcceptedTopic_def
  by (rule isThingnameTopicMatch_eq [OF assms(1) accepted_suffix assms(2)])

lemma spec_startNextAcceptedTopic_inj:
  "spec_startNextAcceptedTopic a = spec_startNextAcceptedTopic b \<longleftrightarrow> a = b"
  by (simp add: spec_startNextAcceptedTopic_def)

lemma spec_startNextTopic_accepted:
  "spec_startNextTopic d @ ''/accepted'' = spec_startNextAcceptedTopic d"
  by (simp add: spec_startNextTopic_def spec_startNextAcceptedTopic_def)

lemma length_spec_startNextTopic: "length (spec_startNextTopic d) = 28 + length d"
  by (simp add: spec_startNextTopic_def)

lemma spec_startNextAcceptedTopic_nonempty: "spec_startNextAcceptedTopic d \<noteq> []"
  by (simp add: spec_startNextAcceptedTopic_def)

text \<open>
  C4. When the name the device stores is the device identity, the start-next topic that
  \<open>getStartNextPendingJobExecutionTopic\<close> builds for a non-empty identity within the
  destination's capacity, followed by \<^verbatim>\<open>/accepted\<close>, is accepted by
  \<open>coreJobs_isStartNextAccepted\<close>; the accepted topic of any other identity, of the same
  length or not, is refused.
\<close>

theorem startNext_topic_accepted:
  "(stored_name name = deviceId \<and> deviceId \<noteq> []
      \<and> length (spec_startNextTopic deviceId) \<le> length buffer \<longrightarrow>
      coreJobs_isStartNextAccepted (mqttWrapper_setThingName globalThingName_init name)
        (Some (take (fst (getStartNextPendingJobExecutionTopic (Some deviceId) buffer))
                 (snd (getStartNextPendingJobExecutionTopic (Some deviceId) buffer))
               @ ''/accepted'')) = Inr True)
   \<and> (stored_name name \<noteq> [] \<and> other \<noteq> stored_name name \<longrightarrow>
      coreJobs_isStartNextAccepted (mqttWrapper_setThingName globalThingName_init name)
        (Some (spec_startNextAcceptedTopic other)) = Inr False)"
proof (intro conjI impI)
  assume a: "stored_name name = deviceId \<and> deviceId \<noteq> []
      \<and> length (spec_startNextTopic deviceId) \<le> length buffer"
  then have b: "getStartNextPendingJobExecutionTopic (Some deviceId) buffer =
     (length (spec_startNextTopic deviceId),
      spec_startNextTopic deviceId @ drop (length (spec_startNextTopic deviceId)) buffer)"
    by (intro getStartNextPendingJobExecutionTopic_ok) (simp_all add: length_spec_startNextTopic)
  have "coreJobs_isStartNextAccepted (mqttWrapper_setThingName globalThingName_init name)
      (Some (spec_startNextAcceptedTopic deviceId)) = Inr True"
    using a coreJobs_isStartNextAccepted_eq [of name "spec_startNextAcceptedTopic deviceId"]
    by (simp add: spec_startNextAcceptedTopic_nonempty)
  then show "coreJobs_isStartNextAccepted (mqttWrapper_setThingName globalThingName_init name)
        (Some (take (fst (getStartNextPendingJobExecutionTopic (Some deviceId) buffer))
                 (snd (getStartNextPendingJobExecutionTopic (Some deviceId) buffer))
               @ ''/accepted'')) = Inr True"
    by (simp add: b spec_startNextTopic_accepted)
next
  assume a: "stored_name name \<noteq> [] \<and> other \<noteq> stored_name name"
  then show "coreJobs_isStartNextAccepted (mqttWrapper_setThingName globalThingName_init name)
        (Some (spec_startNextAcceptedTopic other)) = Inr False"
    using coreJobs_isStartNextAccepted_eq [of name "spec_startNextAcceptedTopic other"]
    by (simp add: spec_startNextAcceptedTopic_nonempty spec_startNextAcceptedTopic_inj)
qed

lemma stored_thingname: "stored_name ''thingname'' = ''thingname''"
  by (simp add: stored_name_def NUL_def MAX_THING_NAME_SIZE_def)

theorem startNext_topic_accepted_witness:
  "stored_name ''thingname'' = ''thingname'' \<and> ''thingname'' \<noteq> []
   \<and> length (spec_startNextTopic ''thingname'') \<le> length (replicate TOPIC_BUFFER_SIZE NUL)
   \<and> take (fst (getStartNextPendingJobExecutionTopic (Some ''thingname'')
                   (replicate TOPIC_BUFFER_SIZE NUL)))
        (snd (getStartNextPendingJobExecutionTopic (Some ''thingname'')
                (replicate TOPIC_BUFFER_SIZE NUL)))
      = ''$aws/things/thingname/jobs/start-next''
   \<and> coreJobs_isStartNextAccepted (mqttWrapper_setThingName globalThingName_init ''thingname'')
        (Some ''$aws/things/thingname/jobs/start-next/accepted'') = Inr True
   \<and> ''different'' \<noteq> stored_name ''thingname''
   \<and> coreJobs_isStartNextAccepted (mqttWrapper_setThingName globalThingName_init ''thingname'')
        (Some ''$aws/things/different/jobs/start-next/accepted'') = Inr False
   \<and> ''differntThignName'' \<noteq> stored_name ''thingname''
   \<and> coreJobs_isStartNextAccepted (mqttWrapper_setThingName globalThingName_init ''thingname'')
        (Some ''$aws/things/differntThignName/jobs/start-next/accepted'') = Inr False"
proof -
  have b: "getStartNextPendingJobExecutionTopic (Some ''thingname'') (replicate TOPIC_BUFFER_SIZE NUL)
     = (37, ''$aws/things/thingname/jobs/start-next'' @ replicate 219 NUL)"
    using getStartNextPendingJobExecutionTopic_ok [of "''thingname''" "replicate TOPIC_BUFFER_SIZE NUL"]
    by (simp add: TOPIC_BUFFER_SIZE_def spec_startNextTopic_def)
  show ?thesis
    using startNext_topic_accepted [of "''thingname''" "''thingname''" "replicate TOPIC_BUFFER_SIZE NUL" "''different''"]
      startNext_topic_accepted [of "''thingname''" "''thingname''" "replicate TOPIC_BUFFER_SIZE NUL" "''differntThignName''"]
    unfolding b
    by (simp add: stored_thingname spec_startNextTopic_def spec_startNextAcceptedTopic_def TOPIC_BUFFER_SIZE_def)
qed

section \<open>What the builders do with an input they refuse\<close>

lemma length_spec_texts:
  "length (spec_startNextMessage tok) = 18 + length tok"
  "length (spec_updateTopic tn jid) = 25 + length tn + length jid"
  by (simp_all add: spec_startNextMessage_def spec_updateTopic_def)

text \<open>
  C7, as the code has it. For a status of the enumeration, each of the four builders
  either returns 0 and leaves the destination as it was (null or empty thing name, token,
  job id or version, or a destination shorter than the text), or returns the length of the
  whole text and leaves the whole text at the start of the destination; no call leaves a
  part of a text.
\<close>

theorem builders_all_or_nothing:
  "getStartNextPendingJobExecutionTopic None buffer = (0, buffer)
   \<and> (tn = [] \<or> length buffer < length (spec_startNextTopic tn) \<longrightarrow>
        getStartNextPendingJobExecutionTopic (Some tn) buffer = (0, buffer))
   \<and> (tn \<noteq> [] \<and> length (spec_startNextTopic tn) \<le> length buffer \<longrightarrow>
        getStartNextPendingJobExecutionTopic (Some tn) buffer =
          (length (spec_startNextTopic tn),
           spec_startNextTopic tn @ drop (length (spec_startNextTopic tn)) buffer))
   \<and> getStartNextPendingJobExecutionMsg None buffer = (0, buffer)
   \<and> (tok = [] \<or> length buffer < length (spec_startNextMessage tok) \<longrightarrow>
        getStartNextPendingJobExecutionMsg (Some tok) buffer = (0, buffer))
   \<and> (tok \<noteq> [] \<and> length (spec_startNextMessage tok) \<le> length buffer \<longrightarrow>
        getStartNextPendingJobExecutionMsg (Some tok) buffer =
          (length (spec_startNextMessage tok),
           spec_startNextMessage tok @ drop (length (spec_startNextMessage tok)) buffer))
   \<and> getUpdateJobExecutionTopic None jobId buffer = (0, buffer)
   \<and> getUpdateJobExecutionTopic thingname None buffer = (0, buffer)
   \<and> (tn = [] \<or> jid = [] \<or> length buffer < length (spec_updateTopic tn jid) \<longrightarrow>
        getUpdateJobExecutionTopic (Some tn) (Some jid) buffer = (0, buffer))
   \<and> (tn \<noteq> [] \<and> jid \<noteq> [] \<and> length (spec_updateTopic tn jid) \<le> length buffer \<longrightarrow>
        getUpdateJobExecutionTopic (Some tn) (Some jid) buffer =
          (length (spec_updateTopic tn jid),
           spec_updateTopic tn jid @ drop (length (spec_updateTopic tn jid)) buffer))
   \<and> getUpdateJobExecutionMsg (JobStatus_value st) None buffer = Inr (0, buffer)
   \<and> (v = [] \<or> length buffer < length (spec_updateMessage st v) \<longrightarrow>
        getUpdateJobExecutionMsg (JobStatus_value st) (Some v) buffer = Inr (0, buffer))
   \<and> (v \<noteq> [] \<and> length (spec_updateMessage st v) \<le> length buffer \<longrightarrow>
        getUpdateJobExecutionMsg (JobStatus_value st) (Some v) buffer =
          Inr (length (spec_updateMessage st v),
               spec_updateMessage st v @ drop (length (spec_updateMessage st v)) buffer))"
proof (intro conjI impI)
  show "getStartNextPendingJobExecutionTopic None buffer = (0, buffer)"
    by (simp add: getStartNextPendingJobExecutionTopic_def)
  show "getStartNextPendingJobExecutionMsg None buffer = (0, buffer)"
    by (simp add: getStartNextPendingJobExecutionMsg_def)
  show "getUpdateJobExecutionTopic None jobId buffer = (0, buffer)"
    by (simp add: getUpdateJobExecutionTopic_def)
  show "getUpdateJobExecutionTopic thingname None buffer = (0, buffer)"
    by (simp add: getUpdateJobExecutionTopic_def split: option.split)
  show "getUpdateJobExecutionMsg (JobStatus_value st) None buffer = Inr (0, buffer)"
    by (simp add: getUpdateJobExecutionMsg_def)
next
  assume "tn = [] \<or> length buffer < length (spec_startNextTopic tn)"
  then show "getStartNextPendingJobExecutionTopic (Some tn) buffer = (0, buffer)"
    unfolding length_spec_startNextTopic by (rule getStartNextPendingJobExecutionTopic_none)
next
  assume "tn \<noteq> [] \<and> length (spec_startNextTopic tn) \<le> length buffer"
  then show "getStartNextPendingJobExecutionTopic (Some tn) buffer =
          (length (spec_startNextTopic tn),
           spec_startNextTopic tn @ drop (length (spec_startNextTopic tn)) buffer)"
    using getStartNextPendingJobExecutionTopic_ok [of tn buffer]
    by (simp add: length_spec_startNextTopic)
next
  assume "tok = [] \<or> length buffer < length (spec_startNextMessage tok)"
  then show "getStartNextPendingJobExecutionMsg (Some tok) buffer = (0, buffer)"
    unfolding length_spec_texts by (rule getStartNextPendingJobExecutionMsg_none)
next
  assume "tok \<noteq> [] \<and> length (spec_startNextMessage tok) \<le> length buffer"
  then show "getStartNextPendingJobExecutionMsg (Some tok) buffer =
          (length (spec_startNextMessage tok),
           spec_startNextMessage tok @ drop (length (spec_startNextMessage tok)) buffer)"
    using getStartNextPendingJobExecutionMsg_ok [of tok buffer]
    by (simp add: length_spec_texts)
next
  assume "tn = [] \<or> jid = [] \<or> length buffer < length (spec_updateTopic tn jid)"
  then show "getUpdateJobExecutionTopic (Some tn) (Some jid) buffer = (0, buffer)"
    unfolding length_spec_texts by (rule getUpdateJobExecutionTopic_none)
next
  assume "tn \<noteq> [] \<and> jid \<noteq> [] \<and> length (spec_updateTopic tn jid) \<le> length buffer"
  then show "getUpdateJobExecutionTopic (Some tn) (Some jid) buffer =
          (length (spec_updateTopic tn jid),
           spec_updateTopic tn jid @ drop (length (spec_updateTopic tn jid)) buffer)"
    using getUpdateJobExecutionTopic_ok [of tn jid buffer]
    by (simp add: length_spec_texts)
next
  assume "v = [] \<or> length buffer < length (spec_updateMessage st v)"
  then show "getUpdateJobExecutionMsg (JobStatus_value st) (Some v) buffer = Inr (0, buffer)"
    unfolding length_spec_updateMessage by (rule getUpdateJobExecutionMsg_none)
next
  assume "v \<noteq> [] \<and> length (spec_updateMessage st v) \<le> length buffer"
  then show "getUpdateJobExecutionMsg (JobStatus_value st) (Some v) buffer =
          Inr (length (spec_updateMessage st v),
               spec_updateMessage st v @ drop (length (spec_updateMessage st v)) buffer)"
    using getUpdateJobExecutionMsg_ok [of v st buffer]
    by (simp add: length_spec_updateMessage)
qed

theorem builders_all_or_nothing_witness:
  \<open>getStartNextPendingJobExecutionTopic (Some ''thingname'') (replicate 256 NUL) =
     (37, ''$aws/things/thingname/jobs/start-next'' @ replicate 219 NUL)
   \<and> getStartNextPendingJobExecutionMsg (Some ''clientToken'') (replicate 256 NUL) =
     (29, ''{"clientToken":"clientToken"}'' @ replicate 227 NUL)
   \<and> getUpdateJobExecutionTopic (Some ''thingname'') (Some ''job-id'') (replicate 256 NUL) =
     (40, ''$aws/things/thingname/jobs/job-id/update'' @ replicate 216 NUL)
   \<and> getUpdateJobExecutionMsg (JobStatus_value Succeeded) (Some ''1.0.1'') (replicate 256 NUL) =
     Inr (48, ''{"status":"SUCCEEDED","expectedVersion":"1.0.1"}'' @ replicate 208 NUL)
   \<and> getStartNextPendingJobExecutionTopic (Some ''thingname'') (replicate 36 NUL) =
     (0, replicate 36 NUL)
   \<and> getStartNextPendingJobExecutionMsg (Some []) (replicate 36 NUL) = (0, replicate 36 NUL)
   \<and> getUpdateJobExecutionTopic (Some ''thingname'') (Some []) (replicate 36 NUL) =
     (0, replicate 36 NUL)
   \<and> getUpdateJobExecutionMsg (JobStatus_value Succeeded) (Some ''1.0.1'') (replicate 36 NUL) =
     Inr (0, replicate 36 NUL)\<close>
  using builders_all_or_nothing [of "replicate 256 NUL" "''thingname''" "''clientToken''" None None
      "''job-id''" Succeeded "''1.0.1''"]
    builders_all_or_nothing [of "replicate 36 NUL" "''thingname''" "[]" None None
      "[]" Succeeded "''1.0.1''"]
  by (simp add: spec_startNextTopic_def spec_startNextMessage_def spec_updateTopic_def
      spec_updateMessage_def)

text \<open>
  The status is never compared with the size of the tables: with the value 5, one past the
  last enumerator, and a non-empty version, the capacity test itself reads
  \<^verbatim>\<open>jobStatusStringLengths[ 5 ]\<close>, outside the table, instead of returning 0.
\<close>

theorem getUpdateJobExecutionMsg_status_unchecked:
  "getUpdateJobExecutionMsg 5 (Some ''1.0.1'') (replicate UPDATE_JOB_MSG_LENGTH NUL) = Inl OutOfBounds"
  by (simp add: getUpdateJobExecutionMsg_def bindE_def array_at_def jobStatusStringLengths_def)

section \<open>The result of a status update, and the bounds of the job id\<close>

lemma takeWhile_no_NUL: "NUL \<notin> set s \<Longrightarrow> takeWhile (\<lambda>c. c \<noteq> NUL) s = s"
  by (induction s) auto

lemma array_at_Inl: "array_at a i = Inl e \<longleftrightarrow> e = OutOfBounds \<and> length a \<le> i"
  by (auto simp add: array_at_def)

lemma memcpy_array_Inl: "memcpy_array n src = Inl e \<longleftrightarrow> e = OutOfBounds \<and> n < length src"
  by (auto simp add: memcpy_array_def)

lemma spec_updateStatusTopic_suffix:
  "NUL \<notin> set jobId \<Longrightarrow>
   ''$aws/things/'' @ d @ job_suffix jobId st = spec_updateStatusTopic d jobId st"
  by (simp add: job_suffix_def spec_updateStatusTopic_def takeWhile_no_NUL)

lemma coreJobs_isJobUpdateStatus_short:
  assumes "stored_name name \<noteq> []" and "NUL \<notin> set jobId" and "length jobId \<le> 42"
    and "t \<noteq> []"
  shows "coreJobs_isJobUpdateStatus (mqttWrapper_setThingName globalThingName_init name) (Some t)
       jobId (JobUpdateStatus_value st)
     = Inr (t = spec_updateStatusTopic (stored_name name) jobId st)"
proof -
  have "length (takeWhile (\<lambda>c. c \<noteq> NUL) jobId) \<le> length jobId"
    by (rule length_takeWhile_le)
  then have l: "length (job_suffix jobId st) \<le> 64"
    using assms(3) by (simp add: job_suffix_props)
  have "coreJobs_isJobUpdateStatus (mqttWrapper_setThingName globalThingName_init name) (Some t)
       jobId (JobUpdateStatus_value st)
     = Inr (t = ''$aws/things/'' @ stored_name name @ job_suffix jobId st)"
    using assms(3)
    by (simp add: coreJobs_isJobUpdateStatus_suffix
        isThingnameTopicMatch_eq [OF assms(1) job_suffix_props(1) l assms(4)])
  then show ?thesis
    by (simp only: spec_updateStatusTopic_suffix [OF assms(2)])
qed

lemma coreJobs_isJobUpdateStatus_long:
  assumes "stored_name name \<noteq> []" and "NUL \<notin> set jobId" and "42 < length jobId"
    and "length jobId \<le> 64" and "t \<noteq> []"
  shows "coreJobs_isJobUpdateStatus (mqttWrapper_setThingName globalThingName_init name) (Some t)
       jobId (JobUpdateStatus_value st) = Inl OutOfBounds"
proof -
  have "length (job_suffix jobId st) = 22 + length jobId"
    unfolding job_suffix_props takeWhile_no_NUL [OF assms(2)] by (rule refl)
  then have l: "64 < length (job_suffix jobId st)"
    using assms(3) by simp
  show ?thesis
    using assms(4)
    by (simp add: coreJobs_isJobUpdateStatus_suffix
        isThingnameTopicMatch_overflow [OF assms(1) job_suffix_props(1) l assms(5)])
qed

lemma spec_updateStatusTopic_nonempty: "spec_updateStatusTopic d j st \<noteq> []"
  by (simp add: spec_updateStatusTopic_def)

text \<open>
  C8. For a job id of at most 42 bytes without NUL and a non-empty topic,
  \<open>coreJobs_isJobUpdateStatus\<close> is true exactly when the topic is the one of the grammar
  (\<open>coreJobs_isJobUpdateStatus_short\<close>).
  A job id may have 64 bytes, and \<open>coreJobs_isJobUpdateStatus\<close> makes room for them, but
  \<open>isThingnameTopicMatch\<close> copies the whole suffix, 22 bytes longer than the job id,
  into an array of \<open>MAX_JOB_ID_LENGTH + 1\<close> bytes. For the device \<open>thingname\<close>, the
  job id \<open>job-id\<close> and its accepted topic, the call returns true; for a job id of 64
  bytes and exactly the topic of the grammar it does not: the copy of the 86 bytes of the
  suffix leaves the array of 65.
\<close>

theorem coreJobs_isJobUpdateStatus_64_byte_job_id:
  "coreJobs_isJobUpdateStatus (mqttWrapper_setThingName globalThingName_init ''thingname'')
     (Some ''$aws/things/thingname/jobs/job-id/update/accepted'') ''job-id''
     (JobUpdateStatus_value JobUpdateStatus_Accepted) = Inr True
   \<and> coreJobs_isJobUpdateStatus (mqttWrapper_setThingName globalThingName_init ''thingname'')
     (Some (spec_updateStatusTopic ''thingname'' (replicate 64 CHR ''j'') JobUpdateStatus_Accepted))
     (replicate 64 CHR ''j'') (JobUpdateStatus_value JobUpdateStatus_Accepted) = Inl OutOfBounds"
proof
  have "coreJobs_isJobUpdateStatus (mqttWrapper_setThingName globalThingName_init ''thingname'')
     (Some ''$aws/things/thingname/jobs/job-id/update/accepted'') ''job-id''
     (JobUpdateStatus_value JobUpdateStatus_Accepted)
     = Inr (''$aws/things/thingname/jobs/job-id/update/accepted''
            = spec_updateStatusTopic (stored_name ''thingname'') ''job-id'' JobUpdateStatus_Accepted)"
    by (rule coreJobs_isJobUpdateStatus_short) (simp_all add: stored_thingname NUL_def)
  then show "coreJobs_isJobUpdateStatus (mqttWrapper_setThingName globalThingName_init ''thingname'')
     (Some ''$aws/things/thingname/jobs/job-id/update/accepted'') ''job-id''
     (JobUpdateStatus_value JobUpdateStatus_Accepted) = Inr True"
    by (simp add: stored_thingname spec_updateStatusTopic_def)
  show "coreJobs_isJobUpdateStatus (mqttWrapper_setThingName globalThingName_init ''thingname'')
     (Some (spec_updateStatusTopic ''thingname'' (replicate 64 CHR ''j'') JobUpdateStatus_Accepted))
     (replicate 64 CHR ''j'') (JobUpdateStatus_value JobUpdateStatus_Accepted) = Inl OutOfBounds"
    by (rule coreJobs_isJobUpdateStatus_long)
      (simp_all add: stored_thingname NUL_def spec_updateStatusTopic_nonempty)
qed

lemma jobId_array_unterminated:
  assumes "MAX_JOB_ID_LENGTH < length jobId" and "NUL \<notin> set jobId"
  shows "coreJobs_isJobUpdateStatus g topic jobId expectedStatus = Inl OutOfBounds"
proof (cases "length jobId = MAX_JOB_ID_LENGTH + 1")
  case True
  then have m: "memcpy_array (MAX_JOB_ID_LENGTH + 1) jobId = Inr jobId"
    by (simp add: memcpy_array_def)
  show ?thesis
    unfolding coreJobs_isJobUpdateStatus_def m
    by (simp add: bindE_def c_string_full [OF assms(2)] array_at_Inl memcpy_array_Inl
        split: sum.split)
next
  case False
  with assms(1) have "memcpy_array (MAX_JOB_ID_LENGTH + 1) jobId = Inl OutOfBounds"
    by (simp add: memcpy_array_def)
  then show ?thesis
    unfolding coreJobs_isJobUpdateStatus_def by (simp add: bindE_def)
qed

lemma jobId_or_status_out_of_bounds:
  assumes "MAX_JOB_ID_LENGTH + 1 < length jobId \<or> 2 \<le> expectedStatus"
  shows "coreJobs_isJobUpdateStatus g topic jobId expectedStatus = Inl OutOfBounds"
proof (cases "MAX_JOB_ID_LENGTH + 1 < length jobId")
  case True
  then have "memcpy_array (MAX_JOB_ID_LENGTH + 1) jobId = Inl OutOfBounds"
    by (simp add: memcpy_array_def)
  then show ?thesis
    unfolding coreJobs_isJobUpdateStatus_def by (simp add: bindE_def)
next
  case False
  with assms have "array_at jobUpdateStatusString expectedStatus = Inl OutOfBounds"
    by (simp add: array_at_def jobUpdateStatusString_def)
  then show ?thesis
    unfolding coreJobs_isJobUpdateStatus_def
    by (simp add: bindE_def memcpy_array_Inl split: sum.split)
qed

lemma local_copies_in_bounds:
  assumes "length jobId \<le> MAX_JOB_ID_LENGTH" and "expectedStatus < 2"
  shows "coreJobs_isJobUpdateStatus g None jobId expectedStatus = Inr False"
proof -
  from assms(2) obtain st where "expectedStatus = JobUpdateStatus_value st"
    by (cases "expectedStatus = 0")
      (auto intro: that [of JobUpdateStatus_Accepted] that [of JobUpdateStatus_Rejected])
  then show ?thesis
    using assms(1)
    by (simp add: MAX_JOB_ID_LENGTH_def coreJobs_isJobUpdateStatus_suffix isThingnameTopicMatch_null)
qed

text \<open>
  C10. \<open>coreJobs_isJobUpdateStatus\<close> copies the job id into an array of 65 bytes and the
  status word into an array of 9 bytes and tests neither the length nor the status. With
  a job id of at most 64 bytes and a status that is 0 or 1 the two copies and the reads of
  the two arrays stay in bounds: the call goes on to \<open>isThingnameTopicMatch\<close> with the
  formatted suffix, and with a null topic it returns false. With a job id of more
  than 64 bytes that has no NUL the array is left without a terminator and read past its
  end; with more than 65 bytes the copy itself leaves the array; with a status of 2 or
  more the tables are read past their end.
\<close>

theorem coreJobs_isJobUpdateStatus_preconditions:
  "MAX_JOB_ID_LENGTH + 1 = 65 \<and> UPDATE_JOB_STATUS_MAX_LENGTH + 1 = 9
   \<and> (length jobId \<le> MAX_JOB_ID_LENGTH \<longrightarrow>
        coreJobs_isJobUpdateStatus g topic jobId (JobUpdateStatus_value st) =
          isThingnameTopicMatch g topic (job_suffix jobId st))
   \<and> (length jobId \<le> MAX_JOB_ID_LENGTH \<and> expectedStatus < 2 \<longrightarrow>
        coreJobs_isJobUpdateStatus g None jobId expectedStatus = Inr False)
   \<and> (MAX_JOB_ID_LENGTH < length jobId \<and> NUL \<notin> set jobId \<longrightarrow>
        coreJobs_isJobUpdateStatus g topic jobId expectedStatus = Inl OutOfBounds)
   \<and> (MAX_JOB_ID_LENGTH + 1 < length jobId \<or> 2 \<le> expectedStatus \<longrightarrow>
        coreJobs_isJobUpdateStatus g topic jobId expectedStatus = Inl OutOfBounds)"
  using local_copies_in_bounds [of jobId expectedStatus g]
    coreJobs_isJobUpdateStatus_suffix [of jobId g topic st]
    jobId_array_unterminated [of jobId g topic expectedStatus]
    jobId_or_status_out_of_bounds [of jobId expectedStatus g topic]
  by (simp add: MAX_JOB_ID_LENGTH_def UPDATE_JOB_STATUS_MAX_LENGTH_def)

theorem coreJobs_isJobUpdateStatus_preconditions_witness:
  "length ''job-id'' \<le> MAX_JOB_ID_LENGTH \<and> (1::nat) < 2
   \<and> coreJobs_isJobUpdateStatus globalThingName_init None ''job-id'' 1 = Inr False
   \<and> coreJobs_isJobUpdateStatus globalThingName_init None ''job-id''
        (JobUpdateStatus_value JobUpdateStatus_Rejected) =
       isThingnameTopicMatch globalThingName_init None ''/jobs/job-id/update/rejected''
   \<and> MAX_JOB_ID_LENGTH < length (replicate 65 CHR ''j'') \<and> NUL \<notin> set (replicate 65 CHR ''j'')
   \<and> coreJobs_isJobUpdateStatus globalThingName_init None (replicate 65 CHR ''j'') 1
       = Inl OutOfBounds
   \<and> (2::nat) \<le> 2
   \<and> coreJobs_isJobUpdateStatus globalThingName_init None ''job-id'' 2 = Inl OutOfBounds"
  using coreJobs_isJobUpdateStatus_preconditions
      [of "''job-id''" globalThingName_init None JobUpdateStatus_Rejected 1]
    coreJobs_isJobUpdateStatus_preconditions
      [of "replicate 65 CHR ''j''" globalThingName_init None JobUpdateStatus_Rejected 1]
    coreJobs_isJobUpdateStatus_preconditions
      [of "''job-id''" globalThingName_init None JobUpdateStatus_Rejected 2]
  by (simp add: MAX_JOB_ID_LENGTH_def NUL_def job_suffix_def isThingnameTopicMatch_null)


section \<open>The download session\<close>

lemma unat_add_of_nat:
  "unat w + n < 2 ^ 32 \<Longrightarrow> unat (w + of_nat n :: u32) = unat w + n"
  by (simp add: unat_word_ariths unat_of_nat)

lemma memcpy_memcpy:
  "off \<le> length b \<Longrightarrow>
   memcpy (memcpy b off p) (off + length p) q = memcpy b off (p @ q)"
  by (simp add: memcpy_def add.commute add.left_commute)

lemma block_accepted:
  assumes "unat (totalBytesReceived s) + length p < CONFIG_MAX_FILE_SIZE"
  shows "otaDemo_handleMqttStreamsBlockArrived p s =
     (if numOfBlocksRemaining s = 1 then
        Inr (s\<lparr>numOfBlocksRemaining := 0,
               totalBytesReceived := totalBytesReceived s + of_nat (length p),
               downloadedData := memcpy (downloadedData s) (unat (totalBytesReceived s)) p\<rparr>,
             [ReportJobStatusComplete])
      else
        Inr (s\<lparr>numOfBlocksRemaining := numOfBlocksRemaining s - 1,
               currentBlockOffset := currentBlockOffset s + 1,
               totalBytesReceived := totalBytesReceived s + of_nat (length p),
               downloadedData := memcpy (downloadedData s) (unat (totalBytesReceived s)) p\<rparr>,
             [RequestDataBlock (currentFileId s) CONFIG_BLOCK_SIZE (currentBlockOffset s + 1)
                NUM_OF_BLOCKS_REQUESTED]))"
  using assms
  by (simp add: otaDemo_handleMqttStreamsBlockArrived_def otaDemo_finishDownload_def Let_def)

lemma block_refused:
  assumes "CONFIG_MAX_FILE_SIZE \<le> unat (totalBytesReceived s) + length p"
  shows "otaDemo_handleMqttStreamsBlockArrived p s = Inl AssertionFailed"
  using assms by (simp add: otaDemo_handleMqttStreamsBlockArrived_def)

lemma blocksArrived_requests:
  assumes "length ps < unat (numOfBlocksRemaining s)"
    and "unat (totalBytesReceived s) + length (concat ps) < CONFIG_MAX_FILE_SIZE"
    and "length (downloadedData s) = CONFIG_MAX_FILE_SIZE"
  shows "blocksArrived ps s = Inr (after_blocks ps s, map (request_at s) [1..<Suc (length ps)])"
  using assms
proof (induction ps arbitrary: s)
  case Nil
  then show ?case by (simp add: after_blocks_def memcpy_def)
next
  case (Cons p ps)
  let ?s1 = "s\<lparr>numOfBlocksRemaining := numOfBlocksRemaining s - 1,
               currentBlockOffset := currentBlockOffset s + 1,
               totalBytesReceived := totalBytesReceived s + of_nat (length p),
               downloadedData := memcpy (downloadedData s) (unat (totalBytesReceived s)) p\<rparr>"
  from Cons.prems have acc: "unat (totalBytesReceived s) + length p < CONFIG_MAX_FILE_SIZE"
    by simp
  from Cons.prems(1) have n1: "numOfBlocksRemaining s \<noteq> 1" "numOfBlocksRemaining s \<noteq> 0"
    by auto
  have step: "otaDemo_handleMqttStreamsBlockArrived p s = Inr (?s1, [request_at s 1])"
    using block_accepted [OF acc] n1 by (simp add: request_at_def)
  have tbr: "unat (totalBytesReceived ?s1) = unat (totalBytesReceived s) + length p"
    using acc by (simp add: unat_add_of_nat CONFIG_MAX_FILE_SIZE_def)
  have rem: "unat (numOfBlocksRemaining ?s1) = unat (numOfBlocksRemaining s) - 1"
    using n1 by (simp add: unat_minus_one)
  have len: "length (downloadedData ?s1) = CONFIG_MAX_FILE_SIZE"
    using acc Cons.prems(3) by (simp add: length_memcpy)
  have ih: "blocksArrived ps ?s1 =
      Inr (after_blocks ps ?s1, map (request_at ?s1) [1..<Suc (length ps)])"
  proof (rule Cons.IH)
    show "length ps < unat (numOfBlocksRemaining ?s1)"
      using Cons.prems(1) unfolding rem by simp
    show "unat (totalBytesReceived ?s1) + length (concat ps) < CONFIG_MAX_FILE_SIZE"
      using Cons.prems(2) unfolding tbr by simp
    show "length (downloadedData ?s1) = CONFIG_MAX_FILE_SIZE" by (rule len)
  qed
  have st: "after_blocks ps ?s1 = after_blocks (p # ps) s"
  proof -
    have "unat (totalBytesReceived s) \<le> length (downloadedData s)"
      using acc Cons.prems(3) by simp
    then have "memcpy (memcpy (downloadedData s) (unat (totalBytesReceived s)) p)
        (unat (totalBytesReceived s) + length p) (concat ps)
       = memcpy (downloadedData s) (unat (totalBytesReceived s)) (p @ concat ps)"
      by (rule memcpy_memcpy)
    then show ?thesis
      unfolding after_blocks_def using tbr by (simp add: algebra_simps)
  qed
  have rq: "request_at s 1 # map (request_at ?s1) [1..<Suc (length ps)]
      = map (request_at s) [1..<Suc (length (p # ps))]"
  proof -
    have "map (request_at ?s1) [1..<Suc (length ps)]
        = map (request_at s \<circ> Suc) [1..<Suc (length ps)]"
      by (rule map_cong) (simp_all add: request_at_def algebra_simps)
    also have "\<dots> = map (request_at s) (map Suc [1..<Suc (length ps)])"
      by (simp only: map_map)
    also have "\<dots> = map (request_at s) [Suc 1..<Suc (Suc (length ps))]"
      by (simp only: map_Suc_upt)
    finally have "request_at s 1 # map (request_at ?s1) [1..<Suc (length ps)]
        = map (request_at s) (1 # [Suc 1..<Suc (Suc (length ps))])"
      by (simp only: list.map)
    moreover have "1 # [Suc 1..<Suc (Suc (length ps))] = [1..<Suc (Suc (length ps))]"
      by (rule upt_conv_Cons [symmetric]) simp
    moreover have "length (p # ps) = Suc (length ps)" by simp
    ultimately show ?thesis by (simp only:)
  qed
  have "blocksArrived (p # ps) s =
      Inr (after_blocks ps ?s1, [request_at s 1] @ map (request_at ?s1) [1..<Suc (length ps)])"
    by (simp only: blocksArrived.simps step ih sum.case prod.case)
  then show ?case
    by (simp only: st rq append.simps)
qed

lemma blocksArrived_append:
  "blocksArrived (xs @ ys) s =
     (case blocksArrived xs s of
        Inl e \<Rightarrow> Inl e
      | Inr (s1, out1) \<Rightarrow>
          (case blocksArrived ys s1 of
             Inl e \<Rightarrow> Inl e
           | Inr (s2, out2) \<Rightarrow> Inr (s2, out1 @ out2)))"
  by (induction xs arbitrary: s) (auto split: sum.splits)

lemma after_blocks_fields:
  "numOfBlocksRemaining (after_blocks ps s) = numOfBlocksRemaining s - of_nat (length ps)"
  "currentBlockOffset (after_blocks ps s) = currentBlockOffset s + of_nat (length ps)"
  "totalBytesReceived (after_blocks ps s) = totalBytesReceived s + of_nat (length (concat ps))"
  "downloadedData (after_blocks ps s) =
     memcpy (downloadedData s) (unat (totalBytesReceived s)) (concat ps)"
  "currentFileId (after_blocks ps s) = currentFileId s"
  "globalJobId (after_blocks ps s) = globalJobId s"
  by (simp_all add: after_blocks_def)

lemma blocksArrived_complete:
  assumes "length ps = unat (numOfBlocksRemaining s)" and "ps \<noteq> []"
    and "unat (totalBytesReceived s) + length (concat ps) < CONFIG_MAX_FILE_SIZE"
    and "length (downloadedData s) = CONFIG_MAX_FILE_SIZE"
  shows "blocksArrived ps s =
     Inr (completed ps s, map (request_at s) [1..<length ps] @ [ReportJobStatusComplete])"
proof -
  from assms(2) obtain qs p where ps: "ps = qs @ [p]"
    by (cases ps rule: rev_cases) auto
  have lq: "length qs < unat (numOfBlocksRemaining s)"
    using assms(1) ps by simp
  have tq: "unat (totalBytesReceived s) + length (concat qs) < CONFIG_MAX_FILE_SIZE"
    using assms(3) ps by simp
  let ?s1 = "after_blocks qs s"
  have run: "blocksArrived qs s = Inr (?s1, map (request_at s) [1..<Suc (length qs)])"
    by (rule blocksArrived_requests [OF lq tq assms(4)])
  have tbr1: "unat (totalBytesReceived ?s1) = unat (totalBytesReceived s) + length (concat qs)"
    using tq by (simp add: after_blocks_fields unat_add_of_nat CONFIG_MAX_FILE_SIZE_def)
  have "unat (numOfBlocksRemaining s) = Suc (length qs)"
    using assms(1) ps by simp
  then have "of_nat (unat (numOfBlocksRemaining s)) = (of_nat (Suc (length qs)) :: u32)"
    by (rule arg_cong)
  then have n: "numOfBlocksRemaining s = of_nat (length qs) + 1"
    by simp
  then have rem1: "numOfBlocksRemaining ?s1 = 1"
    by (simp add: after_blocks_fields)
  have acc: "unat (totalBytesReceived ?s1) + length p < CONFIG_MAX_FILE_SIZE"
    using assms(3) ps unfolding tbr1 by simp
  have le: "unat (totalBytesReceived s) \<le> length (downloadedData s)"
    using assms(3,4) by simp
  have last: "otaDemo_handleMqttStreamsBlockArrived p ?s1 =
      Inr (completed ps s, [ReportJobStatusComplete])"
    unfolding block_accepted [OF acc] rem1
    using tbr1 memcpy_memcpy [OF le, of "concat qs" p] n
    by (simp add: completed_def after_blocks_def ps algebra_simps)
  have "blocksArrived ps s =
      Inr (completed ps s, map (request_at s) [1..<Suc (length qs)] @ [ReportJobStatusComplete])"
    unfolding ps blocksArrived_append run
    by (simp add: last [unfolded ps])
  then show ?thesis
    by (simp add: ps)
qed

lemma ceil_256:
  "(x + 255) div 256 = (if 0 < x mod 256 then Suc (x div 256) else x div 256)" for x :: nat
proof -
  define q r where "q = x div 256" and "r = x mod 256"
  have x: "x = 256 * q + r" and r: "r < 256"
    by (simp_all add: q_def r_def)
  have "(x + 255) div 256 = (if 0 < r then Suc q else q)"
  proof (cases "0 < r")
    case True
    have "(x + 255) div 256 = Suc q"
    proof (rule div_nat_eqI)
      show "256 * Suc q \<le> x + 255" using x True by simp
      show "x + 255 < 256 * Suc (Suc q)" using x r by simp
    qed
    with True show ?thesis by simp
  next
    case False
    have "(x + 255) div 256 = q"
    proof (rule div_nat_eqI)
      show "256 * q \<le> x + 255" using x by simp
      show "x + 255 < 256 * Suc q" using x False by simp
    qed
    with False show ?thesis by simp
  qed
  then show ?thesis by (simp only: q_def r_def)
qed

lemma blockCount_word:
  "(f :: u32) div 256 + (if 0 < f mod 256 then 1 else 0) = of_nat ((unat f + 255) div 256)"
proof -
  have m: "(0 < f mod 256) = (0 < unat f mod 256)"
    by (simp add: word_less_nat_alt unat_mod)
  have d: "f div 256 = of_nat (unat f div 256)"
    by (simp add: word_arith_nat_div)
  show ?thesis
  proof (cases "0 < unat f mod 256")
    case True
    have "f div 256 + (if 0 < f mod 256 then 1 else 0) = f div 256 + 1"
      by (simp only: m True if_True)
    also have "\<dots> = of_nat (Suc (unat f div 256))"
      by (subst d) simp
    finally show ?thesis by (simp only: ceil_256 True if_True)
  next
    case False
    have "f div 256 + (if 0 < f mod 256 then 1 else 0) = f div 256"
      by (simp only: m False if_False add_0_right)
    also have "\<dots> = of_nat (unat f div 256)"
      by (rule d)
    finally show ?thesis by (simp only: ceil_256 False if_False)
  qed
qed

lemma ceil_256_bound: "x < 4294967296 \<Longrightarrow> (x + 255) div 256 < 4294967296" for x :: nat
proof -
  assume "x < 4294967296"
  have "x div 256 \<le> x" by (rule div_le_dividend)
  moreover have "x div 256 < 16777216" using \<open>x < 4294967296\<close> by (simp add: div_less_iff_less_mult)
  ultimately show ?thesis unfolding ceil_256 by (simp split: if_splits)
qed

lemma spec_blockCount_256:
  "spec_blockCount n CONFIG_BLOCK_SIZE = (n + 255) div 256"
  by (simp add: spec_blockCount_def CONFIG_BLOCK_SIZE_def)

lemma processAfrOtaDocument_result:
  "applicationSuppliedFunction_processAfrOtaDocument thingName params s =
     (s\<lparr>numOfBlocksRemaining := of_nat (spec_blockCount (unat (fileSize params)) CONFIG_BLOCK_SIZE),
        currentFileId := ucast (fileId params), currentBlockOffset := 0,
        totalBytesReceived := 0\<rparr>,
      [MqttFileDownloaderInit (imageRef params) thingName,
       RequestDataBlock (ucast (fileId params)) CONFIG_BLOCK_SIZE 0 NUM_OF_BLOCKS_REQUESTED])"
proof -
  have c: "(of_nat CONFIG_BLOCK_SIZE :: u32) = 256"
    by (simp add: CONFIG_BLOCK_SIZE_def)
  show ?thesis
    unfolding applicationSuppliedFunction_processAfrOtaDocument_def Let_def c
      spec_blockCount_256 blockCount_word [symmetric]
    by simp
qed

lemma unat_blockCount:
  "unat (of_nat (spec_blockCount (unat (f :: u32)) CONFIG_BLOCK_SIZE) :: u32) =
     spec_blockCount (unat f) CONFIG_BLOCK_SIZE"
proof -
  have "unat f < 4294967296" using unsigned_less [of f] by simp
  then have "(unat f + 255) div 256 < 4294967296" by (rule ceil_256_bound)
  then have "(unat f + 255) div 256 < 2 ^ LENGTH(32)" by simp
  then show ?thesis
    unfolding spec_blockCount_256 by (simp only: unat_of_nat mod_less)
qed

section \<open>One arrival and the capacity of the buffer\<close>

lemma block_result_fields:
  assumes "otaDemo_handleMqttStreamsBlockArrived payload s = Inr (s', out)"
  shows "unat (totalBytesReceived s) + length payload < CONFIG_MAX_FILE_SIZE"
    and "downloadedData s' = memcpy (downloadedData s) (unat (totalBytesReceived s)) payload"
    and "globalJobId s' = globalJobId s"
proof -
  show a: "unat (totalBytesReceived s) + length payload < CONFIG_MAX_FILE_SIZE"
    using assms by (simp add: otaDemo_handleMqttStreamsBlockArrived_def split: if_splits)
  show "downloadedData s' = memcpy (downloadedData s) (unat (totalBytesReceived s)) payload"
    using assms unfolding block_accepted [OF a] by (auto split: if_splits)
  show "globalJobId s' = globalJobId s"
    using assms unfolding block_accepted [OF a] by (auto split: if_splits)
qed

text \<open>
  C1, as the code has it. When the bytes received plus the payload exceed the capacity of
  \<open>downloadedData\<close>, the handler copies nothing and does not return: the assertion
  fails and the program aborts, with no status report. An arrival that the handler
  accepts writes the payload at the byte counter, inside the buffer, and leaves every
  other byte and the length of the buffer as they were.
\<close>

theorem block_arrival_within_capacity:
  "(CONFIG_MAX_FILE_SIZE < unat (totalBytesReceived s) + length payload \<longrightarrow>
      otaDemo_handleMqttStreamsBlockArrived payload s = Inl AssertionFailed)
   \<and> (length (downloadedData s) = CONFIG_MAX_FILE_SIZE
        \<and> otaDemo_handleMqttStreamsBlockArrived payload s = Inr (s', out) \<longrightarrow>
      unat (totalBytesReceived s) + length payload \<le> CONFIG_MAX_FILE_SIZE
      \<and> length (downloadedData s') = CONFIG_MAX_FILE_SIZE
      \<and> take (unat (totalBytesReceived s)) (downloadedData s')
          = take (unat (totalBytesReceived s)) (downloadedData s)
      \<and> take (length payload) (drop (unat (totalBytesReceived s)) (downloadedData s')) = payload
      \<and> drop (unat (totalBytesReceived s) + length payload) (downloadedData s')
          = drop (unat (totalBytesReceived s) + length payload) (downloadedData s))"
proof (intro conjI impI)
  assume "CONFIG_MAX_FILE_SIZE < unat (totalBytesReceived s) + length payload"
  then show "otaDemo_handleMqttStreamsBlockArrived payload s = Inl AssertionFailed"
    by (intro block_refused) simp
next
  assume a: "length (downloadedData s) = CONFIG_MAX_FILE_SIZE
        \<and> otaDemo_handleMqttStreamsBlockArrived payload s = Inr (s', out)"
  then have lt: "unat (totalBytesReceived s) + length payload < length (downloadedData s)"
    and d: "downloadedData s' = memcpy (downloadedData s) (unat (totalBytesReceived s)) payload"
    using block_result_fields(1,2) [of payload s s' out] by simp_all
  show "unat (totalBytesReceived s) + length payload \<le> CONFIG_MAX_FILE_SIZE"
    using lt a by simp
  show "length (downloadedData s') = CONFIG_MAX_FILE_SIZE"
    using lt a unfolding d by (simp add: length_memcpy)
  show "take (unat (totalBytesReceived s)) (downloadedData s')
          = take (unat (totalBytesReceived s)) (downloadedData s)"
    using lt unfolding d by (simp add: memcpy_def)
  show "take (length payload) (drop (unat (totalBytesReceived s)) (downloadedData s')) = payload"
    using lt unfolding d by (simp add: memcpy_def)
  show "drop (unat (totalBytesReceived s) + length payload) (downloadedData s')
          = drop (unat (totalBytesReceived s) + length payload) (downloadedData s)"
    using lt unfolding d by (simp add: memcpy_def)
qed

theorem block_arrival_within_capacity_witness:
  "CONFIG_MAX_FILE_SIZE < unat (65280 :: u32) + length (replicate 257 (0 :: u8))
   \<and> otaDemo_handleMqttStreamsBlockArrived (replicate 257 0)
        (ota_demo_init\<lparr>numOfBlocksRemaining := 2, totalBytesReceived := 65280\<rparr>)
       = Inl AssertionFailed
   \<and> length (downloadedData ota_demo_init) = CONFIG_MAX_FILE_SIZE
   \<and> otaDemo_handleMqttStreamsBlockArrived [1, 2, 3] (ota_demo_init\<lparr>numOfBlocksRemaining := 2\<rparr>)
       = Inr (ota_demo_init\<lparr>numOfBlocksRemaining := 1, currentBlockOffset := 1,
                totalBytesReceived := 3,
                downloadedData := [1, 2, 3] @ replicate 65533 0\<rparr>,
              [RequestDataBlock 0 256 1 1])
   \<and> length ([1, 2, 3] @ replicate 65533 (0 :: u8)) = CONFIG_MAX_FILE_SIZE"
proof -
  let ?s = "ota_demo_init\<lparr>numOfBlocksRemaining := 2\<rparr>"
  let ?s' = "ota_demo_init\<lparr>numOfBlocksRemaining := 1, currentBlockOffset := 1,
                totalBytesReceived := 3,
                downloadedData := [1, 2, 3] @ replicate 65533 0\<rparr>"
  have r: "otaDemo_handleMqttStreamsBlockArrived [1, 2, 3] ?s = Inr (?s', [RequestDataBlock 0 256 1 1])"
    by (simp add: otaDemo_handleMqttStreamsBlockArrived_def ota_demo_init_def Let_def memcpy_def
        CONFIG_MAX_FILE_SIZE_def CONFIG_BLOCK_SIZE_def NUM_OF_BLOCKS_REQUESTED_def)
  show ?thesis
    using block_arrival_within_capacity
      [of "ota_demo_init\<lparr>numOfBlocksRemaining := 2, totalBytesReceived := 65280\<rparr>"
        "replicate 257 0"]
      block_arrival_within_capacity [of ?s "[1, 2, 3]" ?s' "[RequestDataBlock 0 256 1 1]"] r
    by (simp add: ota_demo_init_def CONFIG_MAX_FILE_SIZE_def)
qed

text \<open>
  After 255 blocks of 256 bytes, a block of 257 bytes would end one byte past the buffer.
  The handler does not report a failed transfer: it stops at the assertion.
\<close>

theorem block_arrival_over_capacity_aborts:
  "CONFIG_MAX_FILE_SIZE < unat (65280 :: u32) + length (replicate 257 (0 :: u8))
   \<and> otaDemo_handleMqttStreamsBlockArrived (replicate 257 0)
     (ota_demo_init\<lparr>numOfBlocksRemaining := 1, currentBlockOffset := 255,
        totalBytesReceived := 65280\<rparr>) = Inl AssertionFailed"
  by (simp add: otaDemo_handleMqttStreamsBlockArrived_def CONFIG_MAX_FILE_SIZE_def)

section \<open>A whole download\<close>

lemma download_eq:
  "download thingName params blocks s =
     (case blocksArrived blocks (fst (applicationSuppliedFunction_processAfrOtaDocument thingName params s)) of
        Inl e \<Rightarrow> Inl e
      | Inr (s1, out1) \<Rightarrow>
          Inr (s1, snd (applicationSuppliedFunction_processAfrOtaDocument thingName params s) @ out1))"
  unfolding download_def split_def by (rule refl)

lemma init_fields:
  "numOfBlocksRemaining (fst (applicationSuppliedFunction_processAfrOtaDocument thingName params s))
     = of_nat (spec_blockCount (unat (fileSize params)) CONFIG_BLOCK_SIZE)"
  "unat (numOfBlocksRemaining (fst (applicationSuppliedFunction_processAfrOtaDocument thingName params s)))
     = spec_blockCount (unat (fileSize params)) CONFIG_BLOCK_SIZE"
  "currentBlockOffset (fst (applicationSuppliedFunction_processAfrOtaDocument thingName params s)) = 0"
  "totalBytesReceived (fst (applicationSuppliedFunction_processAfrOtaDocument thingName params s)) = 0"
  "currentFileId (fst (applicationSuppliedFunction_processAfrOtaDocument thingName params s))
     = ucast (fileId params)"
  "downloadedData (fst (applicationSuppliedFunction_processAfrOtaDocument thingName params s))
     = downloadedData s"
  "globalJobId (fst (applicationSuppliedFunction_processAfrOtaDocument thingName params s))
     = globalJobId s"
  "snd (applicationSuppliedFunction_processAfrOtaDocument thingName params s) =
     [MqttFileDownloaderInit (imageRef params) thingName,
      RequestDataBlock (ucast (fileId params)) CONFIG_BLOCK_SIZE 0 NUM_OF_BLOCKS_REQUESTED]"
  by (simp_all add: processAfrOtaDocument_result unat_blockCount)

lemma requests_simps:
  "requests [] = []"
  "requests (MqttFileDownloaderInit a b # out) = requests out"
  "requests (RequestDataBlock f bs off n # out) = RequestDataBlock f bs off n # requests out"
  "requests (ReportJobStatusComplete # out) = requests out"
  "requests (xs @ ys) = requests xs @ requests ys"
  by (simp_all add: requests_def)

lemma requests_map_request_at: "requests (map (request_at s) ks) = map (request_at s) ks"
  by (induction ks) (simp_all add: requests_simps request_at_def)

lemma request_at_init:
  "request_at (fst (applicationSuppliedFunction_processAfrOtaDocument thingName params s)) k =
     RequestDataBlock (ucast (fileId params)) CONFIG_BLOCK_SIZE (of_nat k) NUM_OF_BLOCKS_REQUESTED"
  by (simp add: request_at_def init_fields)

lemma blockCount_pos: "0 < (f :: u32) \<Longrightarrow> 0 < spec_blockCount (unat f) CONFIG_BLOCK_SIZE"
proof -
  assume "0 < f"
  then have "0 < unat f" by (simp add: word_less_nat_alt)
  then show ?thesis
    unfolding spec_blockCount_256 ceil_256 by (cases "0 < unat f mod 256") auto
qed

lemma download_completes:
  assumes "0 < fileSize params" and "length (downloadedData s) = CONFIG_MAX_FILE_SIZE"
    and "length blocks = spec_blockCount (unat (fileSize params)) CONFIG_BLOCK_SIZE"
    and "sum_list (map length blocks) < CONFIG_MAX_FILE_SIZE"
  shows "download thingName params blocks s =
     Inr (completed blocks (fst (applicationSuppliedFunction_processAfrOtaDocument thingName params s)),
          MqttFileDownloaderInit (imageRef params) thingName
          # map (\<lambda>k. RequestDataBlock (ucast (fileId params)) CONFIG_BLOCK_SIZE (of_nat k)
                      NUM_OF_BLOCKS_REQUESTED) [0..<length blocks]
          @ [ReportJobStatusComplete])"
proof -
  let ?s0 = "fst (applicationSuppliedFunction_processAfrOtaDocument thingName params s)"
  have ne: "blocks \<noteq> []"
    using blockCount_pos [OF assms(1)] assms(3) by auto
  have run: "blocksArrived blocks ?s0 =
      Inr (completed blocks ?s0, map (request_at ?s0) [1..<length blocks] @ [ReportJobStatusComplete])"
  proof (rule blocksArrived_complete)
    show "length blocks = unat (numOfBlocksRemaining ?s0)"
      using assms(3) by (simp only: init_fields(2))
    show "blocks \<noteq> []" by (rule ne)
    show "unat (totalBytesReceived ?s0) + length (concat blocks) < CONFIG_MAX_FILE_SIZE"
      using assms(4) by (simp add: init_fields length_concat)
    show "length (downloadedData ?s0) = CONFIG_MAX_FILE_SIZE"
      using assms(2) by (simp add: init_fields)
  qed
  have "0 < length blocks" using ne by simp
  then have upt: "[0..<length blocks] = 0 # [1..<length blocks]"
    by (simp add: upt_conv_Cons)
  show ?thesis
    unfolding download_eq run upt
    by (simp add: init_fields request_at_init [abs_def])
qed

lemma completed_fields:
  "numOfBlocksRemaining (completed ps s) = numOfBlocksRemaining s - of_nat (length ps)"
  "totalBytesReceived (completed ps s) = totalBytesReceived s + of_nat (length (concat ps))"
  "downloadedData (completed ps s) =
     memcpy (downloadedData s) (unat (totalBytesReceived s)) (concat ps)"
  "globalJobId (completed ps s) = globalJobId s"
  by (simp_all add: completed_def after_blocks_def)

text \<open>
  C3, as the code has it. The block size is the constant 256. For every file size,
  initialisation sets the block counter to \<open>ceil(fileSize / 256)\<close>, resets the offset
  and the byte counter to 0 and requests block 0 with a block count of 1. For a file size
  above 0 and a run of \<open>ceil(fileSize / 256)\<close> arrivals that are all accepted (their
  lengths add up to less than the capacity), the requests are exactly those for the offsets
  \<open>0, \<dots>, ceil(fileSize / 256) - 1\<close> in order, completion is reported once, after the
  last block, and at that moment the byte counter is the sum of the payload lengths and
  the buffer starts with the payloads in order. The sum is not compared with the file
  size.
\<close>

theorem download_requests_every_block:
  "unat (numOfBlocksRemaining
        (fst (applicationSuppliedFunction_processAfrOtaDocument thingName params s)))
     = spec_blockCount (unat (fileSize params)) CONFIG_BLOCK_SIZE
   \<and> currentBlockOffset (fst (applicationSuppliedFunction_processAfrOtaDocument thingName params s)) = 0
   \<and> totalBytesReceived (fst (applicationSuppliedFunction_processAfrOtaDocument thingName params s)) = 0
   \<and> requests (snd (applicationSuppliedFunction_processAfrOtaDocument thingName params s))
       = [RequestDataBlock (ucast (fileId params)) CONFIG_BLOCK_SIZE 0 1]
   \<and> (0 < fileSize params \<and> length (downloadedData s) = CONFIG_MAX_FILE_SIZE
        \<and> length blocks = spec_blockCount (unat (fileSize params)) CONFIG_BLOCK_SIZE
        \<and> sum_list (map length blocks) < CONFIG_MAX_FILE_SIZE \<longrightarrow>
      download thingName params blocks s =
        Inr (completed blocks
               (fst (applicationSuppliedFunction_processAfrOtaDocument thingName params s)),
             MqttFileDownloaderInit (imageRef params) thingName
             # map (\<lambda>k. RequestDataBlock (ucast (fileId params)) CONFIG_BLOCK_SIZE (of_nat k) 1)
                 [0..<spec_blockCount (unat (fileSize params)) CONFIG_BLOCK_SIZE]
             @ [ReportJobStatusComplete])
      \<and> unat (totalBytesReceived (completed blocks
               (fst (applicationSuppliedFunction_processAfrOtaDocument thingName params s))))
          = sum_list (map length blocks)
      \<and> numOfBlocksRemaining (completed blocks
               (fst (applicationSuppliedFunction_processAfrOtaDocument thingName params s))) = 0
      \<and> take (sum_list (map length blocks)) (downloadedData (completed blocks
               (fst (applicationSuppliedFunction_processAfrOtaDocument thingName params s))))
          = concat blocks)"
proof (intro conjI impI)
  let ?s0 = "fst (applicationSuppliedFunction_processAfrOtaDocument thingName params s)"
  show "unat (numOfBlocksRemaining ?s0) = spec_blockCount (unat (fileSize params)) CONFIG_BLOCK_SIZE"
    by (rule init_fields)
  show "currentBlockOffset ?s0 = 0" by (rule init_fields)
  show "totalBytesReceived ?s0 = 0" by (rule init_fields)
  show "requests (snd (applicationSuppliedFunction_processAfrOtaDocument thingName params s))
       = [RequestDataBlock (ucast (fileId params)) CONFIG_BLOCK_SIZE 0 1]"
    by (simp add: init_fields requests_simps NUM_OF_BLOCKS_REQUESTED_def)
  assume a: "0 < fileSize params \<and> length (downloadedData s) = CONFIG_MAX_FILE_SIZE
        \<and> length blocks = spec_blockCount (unat (fileSize params)) CONFIG_BLOCK_SIZE
        \<and> sum_list (map length blocks) < CONFIG_MAX_FILE_SIZE"
  then have l: "length (concat blocks) < CONFIG_MAX_FILE_SIZE"
    by (simp add: length_concat)
  show "download thingName params blocks s =
        Inr (completed blocks ?s0,
             MqttFileDownloaderInit (imageRef params) thingName
             # map (\<lambda>k. RequestDataBlock (ucast (fileId params)) CONFIG_BLOCK_SIZE (of_nat k) 1)
                 [0..<spec_blockCount (unat (fileSize params)) CONFIG_BLOCK_SIZE]
             @ [ReportJobStatusComplete])"
    using a download_completes [of params s blocks thingName]
    by (simp add: NUM_OF_BLOCKS_REQUESTED_def)
  show "unat (totalBytesReceived (completed blocks ?s0)) = sum_list (map length blocks)"
    using l unat_add_of_nat [of 0 "length (concat blocks)"]
    by (simp add: completed_fields init_fields length_concat CONFIG_MAX_FILE_SIZE_def)
  have "of_nat (unat (numOfBlocksRemaining ?s0)) = (of_nat (length blocks) :: u32)"
    using a by (simp only: init_fields(2))
  then show "numOfBlocksRemaining (completed blocks ?s0) = 0"
    by (simp add: completed_fields)
  show "take (sum_list (map length blocks)) (downloadedData (completed blocks ?s0)) = concat blocks"
    using l a by (simp add: completed_fields init_fields memcpy_def length_concat)
qed

theorem download_requests_every_block_witness:
  "(0 :: u32) < 512 \<and> length (downloadedData ota_demo_init) = CONFIG_MAX_FILE_SIZE
   \<and> length [replicate 256 (7 :: u8), replicate 256 9] = spec_blockCount (unat (512 :: u32)) CONFIG_BLOCK_SIZE
   \<and> sum_list (map length [replicate 256 (7 :: u8), replicate 256 9]) < CONFIG_MAX_FILE_SIZE
   \<and> download ''thingname'' \<lparr>fileSize = 512, fileId = 1, imageRef = ''image''\<rparr>
        [replicate 256 7, replicate 256 9] ota_demo_init =
       Inr (completed [replicate 256 7, replicate 256 9]
              (fst (applicationSuppliedFunction_processAfrOtaDocument ''thingname''
                 \<lparr>fileSize = 512, fileId = 1, imageRef = ''image''\<rparr> ota_demo_init)),
            [MqttFileDownloaderInit ''image'' ''thingname'', RequestDataBlock 1 256 0 1,
             RequestDataBlock 1 256 1 1, ReportJobStatusComplete])
   \<and> unat (totalBytesReceived (completed [replicate 256 7, replicate 256 9]
              (fst (applicationSuppliedFunction_processAfrOtaDocument ''thingname''
                 \<lparr>fileSize = 512, fileId = 1, imageRef = ''image''\<rparr> ota_demo_init)))) = 512"
proof -
  have u: "[0..<2] = [0, Suc 0]"
    by (simp add: upt_rec)
  show ?thesis
    using download_requests_every_block [of "''thingname''"
        "\<lparr>fileSize = 512, fileId = 1, imageRef = ''image''\<rparr>" ota_demo_init
        "[replicate 256 7, replicate 256 9]"]
    by (simp add: ota_demo_init_def CONFIG_MAX_FILE_SIZE_def CONFIG_BLOCK_SIZE_def
        spec_blockCount_def u)
qed

text \<open>
  The handler counts arrivals, not bytes: for a file of 512 bytes, two blocks of one byte
  each complete the download with 2 bytes received.
\<close>

theorem completion_with_short_blocks:
  "download ''thingname'' \<lparr>fileSize = 512, fileId = 1, imageRef = ''image''\<rparr> [[1], [2]]
     ota_demo_init =
     Inr (ota_demo_init\<lparr>numOfBlocksRemaining := 0, currentBlockOffset := 1, currentFileId := 1,
            totalBytesReceived := 2, downloadedData := [1, 2] @ replicate 65534 0\<rparr>,
          [MqttFileDownloaderInit ''image'' ''thingname'', RequestDataBlock 1 256 0 1,
           RequestDataBlock 1 256 1 1, ReportJobStatusComplete])
   \<and> sum_list (map length [[1 :: u8], [2]]) = 2 \<and> unat (512 :: u32) = 512"
proof -
  let ?p = "\<lparr>fileSize = 512, fileId = 1, imageRef = ''image''\<rparr>"
  have u: "[0..<2] = [0, Suc 0]"
    by (simp add: upt_rec)
  have "download ''thingname'' ?p [[1], [2]] ota_demo_init =
     Inr (completed [[1], [2]]
            (fst (applicationSuppliedFunction_processAfrOtaDocument ''thingname'' ?p ota_demo_init)),
          MqttFileDownloaderInit (imageRef ?p) ''thingname''
          # map (\<lambda>k. RequestDataBlock (ucast (fileId ?p)) CONFIG_BLOCK_SIZE (of_nat k)
                      NUM_OF_BLOCKS_REQUESTED) [0..<length [[1 :: u8], [2]]]
          @ [ReportJobStatusComplete])"
    by (rule download_completes)
      (simp_all add: spec_blockCount_def CONFIG_BLOCK_SIZE_def ota_demo_init_def
        CONFIG_MAX_FILE_SIZE_def)
  moreover have "completed [[1], [2]]
            (fst (applicationSuppliedFunction_processAfrOtaDocument ''thingname'' ?p ota_demo_init))
     = ota_demo_init\<lparr>numOfBlocksRemaining := 0, currentBlockOffset := 1, currentFileId := 1,
            totalBytesReceived := 2, downloadedData := [1, 2] @ replicate 65534 0\<rparr>"
    by (simp add: completed_def after_blocks_def processAfrOtaDocument_result memcpy_def
        spec_blockCount_def CONFIG_BLOCK_SIZE_def ota_demo_init_def CONFIG_MAX_FILE_SIZE_def)
  ultimately show ?thesis
    by (simp add: u CONFIG_BLOCK_SIZE_def NUM_OF_BLOCKS_REQUESTED_def)
qed

lemma full_blocks_abort:
  assumes "fileSize params = 65536" and "length (downloadedData s) = CONFIG_MAX_FILE_SIZE"
    and "length blocks = 255" and "length (concat blocks) = 65280" and "length block = 256"
  shows "blocksArrived blocks (fst (applicationSuppliedFunction_processAfrOtaDocument thingName params s))
      = Inr (after_blocks blocks (fst (applicationSuppliedFunction_processAfrOtaDocument thingName params s)),
             map (\<lambda>k. RequestDataBlock (ucast (fileId params)) CONFIG_BLOCK_SIZE (of_nat k)
                        NUM_OF_BLOCKS_REQUESTED) [1..<256])"
    and "numOfBlocksRemaining
          (after_blocks blocks (fst (applicationSuppliedFunction_processAfrOtaDocument thingName params s))) = 1"
    and "totalBytesReceived
          (after_blocks blocks (fst (applicationSuppliedFunction_processAfrOtaDocument thingName params s)))
         = 65280"
    and "otaDemo_handleMqttStreamsBlockArrived block
          (after_blocks blocks (fst (applicationSuppliedFunction_processAfrOtaDocument thingName params s)))
         = Inl AssertionFailed"
    and "download thingName params (blocks @ [block]) s = Inl AssertionFailed"
proof -
  let ?s0 = "fst (applicationSuppliedFunction_processAfrOtaDocument thingName params s)"
  have n: "spec_blockCount (unat (fileSize params)) CONFIG_BLOCK_SIZE = 256"
    using assms(1) by (simp add: spec_blockCount_def CONFIG_BLOCK_SIZE_def)
  have "blocksArrived blocks ?s0 =
      Inr (after_blocks blocks ?s0, map (request_at ?s0) [1..<Suc (length blocks)])"
  proof (rule blocksArrived_requests)
    show "length blocks < unat (numOfBlocksRemaining ?s0)"
      using assms(3) by (simp only: init_fields(2) n)
    show "unat (totalBytesReceived ?s0) + length (concat blocks) < CONFIG_MAX_FILE_SIZE"
      using assms(4) by (simp add: init_fields CONFIG_MAX_FILE_SIZE_def)
    show "length (downloadedData ?s0) = CONFIG_MAX_FILE_SIZE"
      using assms(2) by (simp add: init_fields)
  qed
  then show run: "blocksArrived blocks ?s0 =
      Inr (after_blocks blocks ?s0,
           map (\<lambda>k. RequestDataBlock (ucast (fileId params)) CONFIG_BLOCK_SIZE (of_nat k)
                      NUM_OF_BLOCKS_REQUESTED) [1..<256])"
    by (simp add: assms(3) request_at_init [abs_def])
  show "numOfBlocksRemaining (after_blocks blocks ?s0) = 1"
    by (simp add: after_blocks_fields init_fields(1) n assms(3))
  show tbr: "totalBytesReceived (after_blocks blocks ?s0) = 65280"
    by (simp add: after_blocks_fields init_fields assms(4))
  show last: "otaDemo_handleMqttStreamsBlockArrived block (after_blocks blocks ?s0)
      = Inl AssertionFailed"
    by (rule block_refused) (simp add: tbr assms(5) CONFIG_MAX_FILE_SIZE_def)
  show "download thingName params (blocks @ [block]) s = Inl AssertionFailed"
    unfolding download_eq blocksArrived_append run
    by (simp add: last)
qed

text \<open>
  C2. For a file of 65536 bytes, the size of \<open>downloadedData\<close>, and blocks of 256 bytes:
  initialisation requests block 0 and the first 255 arrivals request the blocks 1 to 255,
  so the 256 requests of the scenario are made. The 256th block would fill the buffer
  exactly, but the assertion demands that the bytes received stay below the capacity
  (\<^verbatim>\<open><\<close>, not \<^verbatim>\<open><=\<close>): the program aborts and completion is never reported.
\<close>

theorem max_size_download_aborts:
  "snd (applicationSuppliedFunction_processAfrOtaDocument ''thingname''
          \<lparr>fileSize = 65536, fileId = 1, imageRef = ''image''\<rparr> ota_demo_init)
     = [MqttFileDownloaderInit ''image'' ''thingname'', RequestDataBlock 1 256 0 1]
   \<and> blocksArrived (replicate 255 (replicate 256 0))
        (fst (applicationSuppliedFunction_processAfrOtaDocument ''thingname''
          \<lparr>fileSize = 65536, fileId = 1, imageRef = ''image''\<rparr> ota_demo_init))
     = Inr (after_blocks (replicate 255 (replicate 256 0))
              (fst (applicationSuppliedFunction_processAfrOtaDocument ''thingname''
                 \<lparr>fileSize = 65536, fileId = 1, imageRef = ''image''\<rparr> ota_demo_init)),
            map (\<lambda>k. RequestDataBlock 1 256 (of_nat k) 1) [1..<256])
   \<and> numOfBlocksRemaining (after_blocks (replicate 255 (replicate 256 0))
              (fst (applicationSuppliedFunction_processAfrOtaDocument ''thingname''
                 \<lparr>fileSize = 65536, fileId = 1, imageRef = ''image''\<rparr> ota_demo_init))) = 1
   \<and> totalBytesReceived (after_blocks (replicate 255 (replicate 256 0))
              (fst (applicationSuppliedFunction_processAfrOtaDocument ''thingname''
                 \<lparr>fileSize = 65536, fileId = 1, imageRef = ''image''\<rparr> ota_demo_init))) = 65280
   \<and> otaDemo_handleMqttStreamsBlockArrived (replicate 256 0)
        (after_blocks (replicate 255 (replicate 256 0))
              (fst (applicationSuppliedFunction_processAfrOtaDocument ''thingname''
                 \<lparr>fileSize = 65536, fileId = 1, imageRef = ''image''\<rparr> ota_demo_init)))
     = Inl AssertionFailed
   \<and> download ''thingname'' \<lparr>fileSize = 65536, fileId = 1, imageRef = ''image''\<rparr>
        (replicate 256 (replicate 256 0)) ota_demo_init = Inl AssertionFailed"
proof -
  let ?p = "\<lparr>fileSize = 65536, fileId = 1, imageRef = ''image''\<rparr>"
  let ?bs = "replicate 255 (replicate 256 (0 :: u8))"
  have a: "fileSize ?p = 65536" "length (downloadedData ota_demo_init) = CONFIG_MAX_FILE_SIZE"
    "length ?bs = 255" "length (concat ?bs) = 65280" "length (replicate 256 (0 :: u8)) = 256"
    by (simp_all add: ota_demo_init_def length_concat sum_list_replicate)
  have "replicate (Suc 255) (replicate 256 (0 :: u8)) = ?bs @ [replicate 256 0]"
    by (simp only: replicate_Suc replicate_append_same)
  then have r: "replicate 256 (replicate 256 (0 :: u8)) = ?bs @ [replicate 256 0]"
    by simp
  note f = full_blocks_abort [where thingName = "''thingname''", OF a]
  show ?thesis
    unfolding r
    using f
    by (simp add: init_fields CONFIG_BLOCK_SIZE_def NUM_OF_BLOCKS_REQUESTED_def)
qed

section \<open>One job at a time\<close>

lemma blocksArrived_globalJobId:
  "blocksArrived ps s = Inr (s', out) \<Longrightarrow> globalJobId s' = globalJobId s"
proof (induction ps arbitrary: s s' out)
  case Nil
  then show ?case by simp
next
  case (Cons p ps)
  from Cons.prems obtain s1 out1 s2 out2 where
    1: "otaDemo_handleMqttStreamsBlockArrived p s = Inr (s1, out1)"
    and 2: "blocksArrived ps s1 = Inr (s2, out2)" and 3: "s' = s2"
    by (auto split: sum.splits)
  from Cons.IH [OF 2] block_result_fields(3) [OF 1] 3 show ?case by simp
qed

lemma start_next_ignored:
  "char_at (globalJobId s) \<noteq> NUL \<Longrightarrow>
   otaDemo_handleJobsStartNextAccepted handleJobDoc thingName jobId jobDoc s = Inr (False, s, [])"
  by (simp add: otaDemo_handleJobsStartNextAccepted_def)

lemma strncpy_job_id:
  assumes "NUL \<notin> set jobId" and "length jobId \<le> length dst"
  shows "strncpy dst jobId (length jobId) = jobId @ drop (length jobId) dst"
  using assms by (simp add: strncpy_def takeWhile_no_NUL Let_def)

lemma char_at_replicate_NUL: "char_at (replicate n NUL) = NUL"
  by (cases n) (simp_all add: char_at_def)

lemma char_at_strncpy:
  "char_at jobId \<noteq> NUL \<Longrightarrow> char_at (strncpy dst jobId (length jobId)) \<noteq> NUL"
  by (cases jobId) (simp_all add: char_at_def strncpy_def Let_def)

lemma start_next_recorded:
  assumes "length jobId \<le> length (globalJobId s)" and "char_at (globalJobId s) = NUL"
  shows "\<exists>handled s1 out1.
     otaDemo_handleJobsStartNextAccepted handleJobDoc thingName jobId jobDoc s
       = Inr (handled, s1, out1)
     \<and> globalJobId s1 = strncpy (globalJobId s) jobId (length jobId)"
proof -
  let ?sg = "s\<lparr>globalJobId := strncpy (globalJobId s) jobId (length jobId)\<rparr>"
  have r: "otaDemo_handleJobsStartNextAccepted handleJobDoc thingName jobId jobDoc s =
     (case handleJobDoc jobId jobDoc of
        None \<Rightarrow> Inr (False, ?sg, [])
      | Some params \<Rightarrow>
          Inr (True, fst (applicationSuppliedFunction_processAfrOtaDocument thingName params ?sg),
               snd (applicationSuppliedFunction_processAfrOtaDocument thingName params ?sg)))"
    unfolding otaDemo_handleJobsStartNextAccepted_def Let_def split_def
    using assms by simp
  show ?thesis
  proof (cases "handleJobDoc jobId jobDoc")
    case None
    then show ?thesis unfolding r by auto
  next
    case (Some params)
    then show ?thesis unfolding r by (auto simp add: init_fields)
  qed
qed

text \<open>
  C5, as the code has it. The record of an active job is the first byte of
  \<open>globalJobId\<close>. From a state with no job recorded, after
  \<open>otaDemo_handleJobsStartNextAccepted\<close> has been called with a job id whose first byte
  is not NUL (so the id is not empty) and that fits the 64 bytes of the array, the array
  holds what \<^verbatim>\<open>strncpy\<close> stored, which is the job id itself when the id has no NUL, and a
  second call, with any job id and document, returns false and leaves the state as it
  was; so it does after any blocks have arrived in between, which leave the stored id
  unchanged.
\<close>

theorem second_start_next_ignored:
  "char_at jobId1 \<noteq> NUL \<and> length jobId1 \<le> MAX_JOB_ID_LENGTH
     \<and> length (globalJobId s) = MAX_JOB_ID_LENGTH \<and> char_at (globalJobId s) = NUL \<longrightarrow>
   (\<exists>handled s1 out1.
      otaDemo_handleJobsStartNextAccepted handleJobDoc thingName jobId1 jobDoc1 s
        = Inr (handled, s1, out1)
      \<and> globalJobId s1 = strncpy (globalJobId s) jobId1 (length jobId1)
      \<and> (NUL \<notin> set jobId1 \<longrightarrow> take (length jobId1) (globalJobId s1) = jobId1)
      \<and> otaDemo_handleJobsStartNextAccepted handleJobDoc thingName jobId2 jobDoc2 s1
        = Inr (False, s1, [])
      \<and> (\<forall>blocks s2 out2. blocksArrived blocks s1 = Inr (s2, out2) \<longrightarrow>
            globalJobId s2 = globalJobId s1
            \<and> otaDemo_handleJobsStartNextAccepted handleJobDoc thingName jobId2 jobDoc2 s2
              = Inr (False, s2, [])))"
proof
  assume a: "char_at jobId1 \<noteq> NUL \<and> length jobId1 \<le> MAX_JOB_ID_LENGTH
     \<and> length (globalJobId s) = MAX_JOB_ID_LENGTH \<and> char_at (globalJobId s) = NUL"
  then have l: "length jobId1 \<le> length (globalJobId s)" by simp
  from a obtain handled s1 out1 where
    1: "otaDemo_handleJobsStartNextAccepted handleJobDoc thingName jobId1 jobDoc1 s
        = Inr (handled, s1, out1)"
    and g: "globalJobId s1 = strncpy (globalJobId s) jobId1 (length jobId1)"
    using start_next_recorded [OF l, of handleJobDoc thingName jobDoc1] by blast
  from a have c: "char_at (globalJobId s1) \<noteq> NUL"
    unfolding g by (intro char_at_strncpy) simp
  have t: "take (length jobId1) (globalJobId s1) = jobId1" if "NUL \<notin> set jobId1"
    unfolding g strncpy_job_id [OF that l] by simp
  have 2: "otaDemo_handleJobsStartNextAccepted handleJobDoc thingName jobId2 jobDoc2 s1
        = Inr (False, s1, [])"
    by (rule start_next_ignored [OF c])
  have 3: "globalJobId s2 = globalJobId s1
            \<and> otaDemo_handleJobsStartNextAccepted handleJobDoc thingName jobId2 jobDoc2 s2
              = Inr (False, s2, [])"
    if "blocksArrived blocks s1 = Inr (s2, out2)" for blocks s2 out2
    using blocksArrived_globalJobId [OF that] c by (simp add: start_next_ignored)
  from 1 g t 2 3 show "\<exists>handled s1 out1.
      otaDemo_handleJobsStartNextAccepted handleJobDoc thingName jobId1 jobDoc1 s
        = Inr (handled, s1, out1)
      \<and> globalJobId s1 = strncpy (globalJobId s) jobId1 (length jobId1)
      \<and> (NUL \<notin> set jobId1 \<longrightarrow> take (length jobId1) (globalJobId s1) = jobId1)
      \<and> otaDemo_handleJobsStartNextAccepted handleJobDoc thingName jobId2 jobDoc2 s1
        = Inr (False, s1, [])
      \<and> (\<forall>blocks s2 out2. blocksArrived blocks s1 = Inr (s2, out2) \<longrightarrow>
            globalJobId s2 = globalJobId s1
            \<and> otaDemo_handleJobsStartNextAccepted handleJobDoc thingName jobId2 jobDoc2 s2
              = Inr (False, s2, []))"
    by (intro exI [of _ handled] exI [of _ s1] exI [of _ out1]) simp
qed

theorem second_start_next_ignored_witness:
  "char_at ''job-id'' \<noteq> NUL \<and> length ''job-id'' \<le> MAX_JOB_ID_LENGTH
   \<and> length (globalJobId ota_demo_init) = MAX_JOB_ID_LENGTH
   \<and> char_at (globalJobId ota_demo_init) = NUL \<and> NUL \<notin> set ''job-id''
   \<and> otaDemo_handleJobsStartNextAccepted
        (\<lambda>jobId jobDoc. Some \<lparr>fileSize = 512, fileId = 1, imageRef = ''image''\<rparr>)
        ''thingname'' ''job-id'' ''doc'' ota_demo_init
       = Inr (True,
              ota_demo_init\<lparr>numOfBlocksRemaining := 2, currentFileId := 1,
                 globalJobId := ''job-id'' @ replicate 58 NUL\<rparr>,
              [MqttFileDownloaderInit ''image'' ''thingname'', RequestDataBlock 1 256 0 1])
   \<and> otaDemo_handleJobsStartNextAccepted
        (\<lambda>jobId jobDoc. Some \<lparr>fileSize = 512, fileId = 1, imageRef = ''image''\<rparr>)
        ''thingname'' ''job-two'' ''doc''
        (ota_demo_init\<lparr>numOfBlocksRemaining := 2, currentFileId := 1,
                 globalJobId := ''job-id'' @ replicate 58 NUL\<rparr>)
       = Inr (False,
              ota_demo_init\<lparr>numOfBlocksRemaining := 2, currentFileId := 1,
                 globalJobId := ''job-id'' @ replicate 58 NUL\<rparr>, [])"
proof -
  let ?h = "\<lambda>jobId jobDoc. Some \<lparr>fileSize = 512, fileId = 1, imageRef = ''image''\<rparr>"
  have n: "spec_blockCount 512 256 = 2"
    by (simp add: spec_blockCount_def)
  have 1: "otaDemo_handleJobsStartNextAccepted ?h ''thingname'' ''job-id'' ''doc'' ota_demo_init
       = Inr (True,
              ota_demo_init\<lparr>numOfBlocksRemaining := 2, currentFileId := 1,
                 globalJobId := ''job-id'' @ replicate 58 NUL\<rparr>,
              [MqttFileDownloaderInit ''image'' ''thingname'', RequestDataBlock 1 256 0 1])"
    by (simp add: otaDemo_handleJobsStartNextAccepted_def processAfrOtaDocument_result n
        ota_demo_init_def char_at_replicate_NUL [unfolded NUL_def] MAX_JOB_ID_LENGTH_def
        strncpy_def NUL_def
        CONFIG_BLOCK_SIZE_def NUM_OF_BLOCKS_REQUESTED_def Let_def)
  have c: "char_at ''job-id'' \<noteq> NUL"
    by (simp add: char_at_def NUL_def)
  have c0: "char_at (globalJobId ota_demo_init) = NUL"
    by (simp add: ota_demo_init_def char_at_replicate_NUL)
  show ?thesis
    using second_start_next_ignored [of "''job-id''" ota_demo_init ?h "''thingname''" "''doc''"
        "''job-two''" "''doc''"] c c0
    unfolding 1
    by (auto simp add: ota_demo_init_def NUL_def MAX_JOB_ID_LENGTH_def)
qed

text \<open>
  An empty job id cannot be recorded: after a first call with the empty id, which the
  parser accepts here, the first byte of \<open>globalJobId\<close> is still NUL, and the second
  call, with the id \<open>job-two\<close>, is handled as well: it returns true, records its id and
  starts a download of its own.
\<close>

theorem empty_job_id_not_recorded:
  "otaDemo_handleJobsStartNextAccepted
      (\<lambda>jobId jobDoc. Some \<lparr>fileSize = 512, fileId = 1, imageRef = ''image''\<rparr>)
      ''thingname'' [] ''doc'' ota_demo_init
     = Inr (True,
            ota_demo_init\<lparr>numOfBlocksRemaining := 2, currentFileId := 1\<rparr>,
            [MqttFileDownloaderInit ''image'' ''thingname'', RequestDataBlock 1 256 0 1])
   \<and> otaDemo_handleJobsStartNextAccepted
      (\<lambda>jobId jobDoc. Some \<lparr>fileSize = 512, fileId = 1, imageRef = ''image''\<rparr>)
      ''thingname'' ''job-two'' ''doc''
      (ota_demo_init\<lparr>numOfBlocksRemaining := 2, currentFileId := 1\<rparr>)
     = Inr (True,
            ota_demo_init\<lparr>numOfBlocksRemaining := 2, currentFileId := 1,
               globalJobId := ''job-two'' @ replicate 57 NUL\<rparr>,
            [MqttFileDownloaderInit ''image'' ''thingname'', RequestDataBlock 1 256 0 1])"
proof -
  have n: "spec_blockCount 512 256 = 2"
    by (simp add: spec_blockCount_def)
  show ?thesis
    by (simp add: otaDemo_handleJobsStartNextAccepted_def processAfrOtaDocument_result n
        ota_demo_init_def char_at_replicate_NUL [unfolded NUL_def] MAX_JOB_ID_LENGTH_def
        strncpy_def NUL_def
        CONFIG_BLOCK_SIZE_def NUM_OF_BLOCKS_REQUESTED_def Let_def)
qed

section \<open>Routing an incoming message\<close>

text \<open>
  C9. The router calls the jobs dispatcher first. If that handled the message, the result
  is true and the state is the one the jobs dispatcher left: the streams dispatcher is
  not called. Otherwise the streams dispatcher is called on that state and decides; the
  result is true exactly when one of the two handled the message, and an unhandled message
  is printed.
\<close>

theorem route_jobs_then_streams:
  "(fst (jobs topic message s) \<longrightarrow>
      otaDemo_handleIncomingMQTTMessage jobs streams topic message s
        = (True, snd (jobs topic message s), []))
   \<and> (\<not> fst (jobs topic message s) \<longrightarrow>
      otaDemo_handleIncomingMQTTMessage jobs streams topic message s
        = (fst (streams topic message (snd (jobs topic message s))),
           snd (streams topic message (snd (jobs topic message s))),
           if fst (streams topic message (snd (jobs topic message s))) then []
           else [(topic, message)]))
   \<and> (fst (otaDemo_handleIncomingMQTTMessage jobs streams topic message s) \<longleftrightarrow>
        fst (jobs topic message s) \<or> fst (streams topic message (snd (jobs topic message s))))"
  by (simp add: otaDemo_handleIncomingMQTTMessage_def split_def)

theorem route_jobs_then_streams_witness:
  "otaDemo_handleIncomingMQTTMessage
      (\<lambda>t m (a, b). (t = ''job'', (Suc a, b))) (\<lambda>t m (a, b). (t = ''block'', (a, Suc b)))
      ''job'' [] (0 :: nat, 0 :: nat) = (True, (1, 0), [])
   \<and> otaDemo_handleIncomingMQTTMessage
      (\<lambda>t m (a, b). (t = ''job'', (Suc a, b))) (\<lambda>t m (a, b). (t = ''block'', (a, Suc b)))
      ''block'' [] (0 :: nat, 0 :: nat) = (True, (1, 1), [])
   \<and> otaDemo_handleIncomingMQTTMessage
      (\<lambda>t m (a, b). (t = ''job'', (Suc a, b))) (\<lambda>t m (a, b). (t = ''block'', (a, Suc b)))
      ''Hello'' [] (0 :: nat, 0 :: nat) = (False, (1, 1), [(''Hello'', [])])"
  using route_jobs_then_streams
      [of "\<lambda>t m (a, b). (t = ''job'', (Suc a, b))" "''job''" "[]" "(0 :: nat, 0 :: nat)"
        "\<lambda>t m (a, b). (t = ''block'', (a, Suc b))"]
    route_jobs_then_streams
      [of "\<lambda>t m (a, b). (t = ''job'', (Suc a, b))" "''block''" "[]" "(0 :: nat, 0 :: nat)"
        "\<lambda>t m (a, b). (t = ''block'', (a, Suc b))"]
    route_jobs_then_streams
      [of "\<lambda>t m (a, b). (t = ''job'', (Suc a, b))" "''Hello''" "[]" "(0 :: nat, 0 :: nat)"
        "\<lambda>t m (a, b). (t = ''block'', (a, Suc b))"]
  by simp

end
